theory Spec2Isabelle
  imports Complex_Main
begin

section \<open>Python values and errors\<close>

text \<open>
  A Python float is modelled as the \<^typ>\<open>real\<close> number it denotes. The driver, the solver
  and the tracking client compute on these in exact arithmetic; the solver has a second
  model whose values can also be NaN, and the teleop loop rounds every sum, difference and
  quotient to a double. Infinities are not represented. Every exception the modelled code
  can raise is a value of \<open>py_error\<close>, and a function that can raise returns
  \<open>py_error + 'a\<close> with \<open>Inl\<close> for the exception.
\<close>

datatype py_error =
    IndexError
  | KeyError
  | TypeError
  | ValueError
  | RuntimeError
  | ZeroDivisionError
  | NonFinite  \<comment> \<open>numpy yields inf or nan (with a warning): no counterpart in \<^typ>\<open>real\<close>\<close>
  | Propagated  \<comment> \<open>a \<open>BaseException\<close> that is not an \<open>Exception\<close> (KeyboardInterrupt, SystemExit)\<close>

definition bind_err :: "py_error + 'a \<Rightarrow> ('a \<Rightarrow> py_error + 'b) \<Rightarrow> py_error + 'b" where
  "bind_err m f = (case m of Inl e \<Rightarrow> Inl e | Inr x \<Rightarrow> f x)"

definition getitem :: "'a list \<Rightarrow> nat \<Rightarrow> py_error + 'a" where
  \<comment> \<open>\<open>xs[i]\<close> for a non-negative index\<close>
  "getitem xs i = (if i < length xs then Inr (xs ! i) else Inl IndexError)"

definition setitem :: "'a list \<Rightarrow> nat \<Rightarrow> 'a \<Rightarrow> py_error + 'a list" where
  \<comment> \<open>\<open>xs[i] = v\<close> for a non-negative index\<close>
  "setitem xs i v = (if i < length xs then Inr (xs[i := v]) else Inl IndexError)"

definition np_zeros :: "nat \<Rightarrow> real list" where
  "np_zeros n = replicate n 0"

definition np_ones :: "nat \<Rightarrow> real list" where
  "np_ones n = replicate n 1"


section \<open>Double-precision arithmetic\<close>

text \<open>
  An IEEE 754 double has a significand of 53 bits. A float operation of Python returns
  the exact result rounded to the nearest double, ties to the even significand. The
  exponent range is taken as unbounded: overflow and subnormal numbers are left out.
\<close>

definition round_even :: "real \<Rightarrow> int" where
  \<comment> \<open>the nearest integer, a tie to the even one\<close>
  "round_even x =
     (let f = \<lfloor>x\<rfloor>; r = x - of_int f
      in if r < 1 / 2 then f else if 1 / 2 < r then f + 1 else if even f then f else f + 1)"

definition double_exponent :: "real \<Rightarrow> int" where
  \<comment> \<open>the \<open>e\<close> with \<open>2^e \<le> |x| < 2^(e+1)\<close>\<close>
  "double_exponent x = \<lfloor>log 2 \<bar>x\<bar>\<rfloor>"

definition fl :: "real \<Rightarrow> real" where
  \<comment> \<open>the double nearest to \<open>x\<close>\<close>
  "fl x =
     (if x = 0 then 0
      else (let ulp = 2 powi (double_exponent x - 52)
            in of_int (round_even (x / ulp)) * ulp))"

definition fadd :: "real \<Rightarrow> real \<Rightarrow> real" where
  \<comment> \<open>\<open>a + b\<close> on floats\<close>
  "fadd a b = fl (a + b)"

definition fsub :: "real \<Rightarrow> real \<Rightarrow> real" where
  \<comment> \<open>\<open>a - b\<close> on floats\<close>
  "fsub a b = fl (a - b)"


section \<open>The Inspire hand driver (inspire\_driver.py)\<close>

definition NUM_MOTORS_PER_HAND :: nat where
  "NUM_MOTORS_PER_HAND = 6"

definition TOTAL_MOTORS :: nat where
  "TOTAL_MOTORS = 12"

text \<open>One entry of \<open>msg.states\<close>: the fields \<open>q\<close>, \<open>dq\<close> and \<open>tau_est\<close> of a motor state.\<close>

record motor_state =
  st_q :: real
  st_dq :: real
  st_tau_est :: real

text \<open>
  The driver object: the three state mirrors and the command mirror are the numpy arrays
  the instance owns. They are the backing storage of every slice taken from them.
\<close>

record driver =
  joint_q :: "real list"
  joint_dq :: "real list"
  joint_tau :: "real list"
  cmd_q :: "real list"
  running :: bool

definition driver_init :: driver where
  "driver_init = \<lparr> joint_q = np_zeros TOTAL_MOTORS, joint_dq = np_zeros TOTAL_MOTORS,
     joint_tau = np_zeros TOTAL_MOTORS, cmd_q = np_ones TOTAL_MOTORS, running = True \<rparr>"

text \<open>
  A basic slice \<open>a[start:stop]\<close> of a numpy array is a view: it owns no data and names
  the array it was cut from. Reading it dereferences that array in the current state.
\<close>

datatype mirror = JointQ | JointDq | JointTau

record ndview =
  v_base :: mirror
  v_start :: nat
  v_stop :: nat

definition backing :: "driver \<Rightarrow> mirror \<Rightarrow> real list" where
  "backing d m = (case m of JointQ \<Rightarrow> joint_q d | JointDq \<Rightarrow> joint_dq d | JointTau \<Rightarrow> joint_tau d)"

definition view_read :: "driver \<Rightarrow> ndview \<Rightarrow> real list" where
  \<comment> \<open>the values seen through a view; a slice silently stops at the end of the array\<close>
  "view_read d v = take (v_stop v - v_start v) (drop (v_start v) (backing d (v_base v)))"

definition start_idx_of :: "bool \<Rightarrow> nat" where
  "start_idx_of is_left = (if is_left then 6 else 0)"

definition get_hand_state :: "driver \<Rightarrow> bool \<Rightarrow> ndview \<times> ndview \<times> ndview" where
  "get_hand_state d is_left =
     (let start_idx = start_idx_of is_left;
          end_idx = start_idx + 6
      in (\<lparr> v_base = JointQ, v_start = start_idx, v_stop = end_idx \<rparr>,
          \<lparr> v_base = JointDq, v_start = start_idx, v_stop = end_idx \<rparr>,
          \<lparr> v_base = JointTau, v_start = start_idx, v_stop = end_idx \<rparr>))"

text \<open>
  One pass of the body of \<open>_recv_loop\<close>: \<open>msg\<close> is what \<open>self.sub.Read()\<close> returned
  (\<open>None\<close>, or the list \<open>msg.states\<close>).
\<close>

fun recv_copy :: "motor_state list \<Rightarrow> driver \<Rightarrow> nat list \<Rightarrow> py_error + driver" where
  "recv_copy states d [] = Inr d"
| "recv_copy states d (i # rest) =
     bind_err (getitem states i) (\<lambda>s.
     bind_err (setitem (joint_q d) i (st_q s)) (\<lambda>jq.
     bind_err (setitem (joint_dq d) i (st_dq s)) (\<lambda>jdq.
     bind_err (setitem (joint_tau d) i (st_tau_est s)) (\<lambda>jtau.
       recv_copy states (d\<lparr> joint_q := jq, joint_dq := jdq, joint_tau := jtau \<rparr>) rest))))"

definition recv_step :: "driver \<Rightarrow> motor_state list option \<Rightarrow> py_error + driver" where
  "recv_step d msg =
     (case msg of
        None \<Rightarrow> Inr d
      | Some states \<Rightarrow>
          (let count = min (length states) TOTAL_MOTORS
           in recv_copy states d [0..<count]))"

text \<open>\<open>set_hand_cmd\<close>: the loop over \<open>range(limit)\<close>, then the method itself.\<close>

fun cmd_copy :: "nat \<Rightarrow> real list \<Rightarrow> real list \<Rightarrow> nat list \<Rightarrow> py_error + real list" where
  "cmd_copy start_idx q_cmd cmd [] = Inr cmd"
| "cmd_copy start_idx q_cmd cmd (i # rest) =
     bind_err (getitem q_cmd i) (\<lambda>v.
     bind_err (setitem cmd (start_idx + i) v) (\<lambda>cmd'.
       cmd_copy start_idx q_cmd cmd' rest))"

definition set_hand_cmd :: "driver \<Rightarrow> bool \<Rightarrow> real list \<Rightarrow> py_error + driver" where
  "set_hand_cmd d is_left q_cmd =
     (let start_idx = start_idx_of is_left;
          limit = min (length q_cmd) 6
      in bind_err (cmd_copy start_idx q_cmd (cmd_q d) [0..<limit]) (\<lambda>c. Inr (d\<lparr> cmd_q := c \<rparr>)))"


section \<open>The gripper inverse-kinematics solver (g1\_gripper\_ik\_solver.py)\<close>

text \<open>
  A numpy array of shape \<open>(n, 4, 4)\<close> is a list of matrices, a matrix a list of rows.
  \<open>has_shape44\<close> says that a nested list is such an array.
\<close>

type_synonym matrix = "real list list"
type_synonym tensor = "matrix list"

definition has_shape44 :: "'a list list list \<Rightarrow> bool" where
  "has_shape44 t = list_all (\<lambda>m. length m = 4 \<and> list_all (\<lambda>r. length r = 4) m) t"

definition zeros_tensor :: tensor where
  \<comment> \<open>\<open>np.zeros([25, 4, 4])\<close>\<close>
  "zeros_tensor = replicate 25 (replicate 4 (np_zeros 4))"

definition np_atol :: real where
  "np_atol = 1 / 100000000"

definition np_rtol :: real where
  "np_rtol = 1 / 100000"

definition isclose :: "real \<Rightarrow> real \<Rightarrow> bool" where
  \<comment> \<open>numpy: \<open>|a - b| <= atol + rtol * |b|\<close> with the default tolerances\<close>
  "isclose a b = (\<bar>a - b\<bar> \<le> np_atol + np_rtol * \<bar>b\<bar>)"

definition allclose_vec :: "real list \<Rightarrow> real \<Rightarrow> bool" where
  "allclose_vec v b = list_all (\<lambda>x. isclose x b) v"

definition allclose :: "tensor \<Rightarrow> real \<Rightarrow> bool" where
  \<comment> \<open>\<open>np.allclose(fingertips, b)\<close> against a scalar\<close>
  "allclose t b = list_all (\<lambda>m. list_all (\<lambda>r. allclose_vec r b) m) t"

definition np_clip :: "real \<Rightarrow> real \<Rightarrow> real \<Rightarrow> real" where
  \<comment> \<open>\<open>np.clip(x, lo, hi)\<close> is \<open>minimum(maximum(x, lo), hi)\<close>\<close>
  "np_clip x lo hi = min (max x lo) hi"

definition np_norm :: "real list \<Rightarrow> real" where
  \<comment> \<open>\<open>np.linalg.norm\<close> of a vector\<close>
  "np_norm v = sqrt (sum_list (map (\<lambda>x. x\<^sup>2) v))"

definition vec_sub :: "real list \<Rightarrow> real list \<Rightarrow> py_error + real list" where
  \<comment> \<open>\<open>a - b\<close> on vectors of one shape\<close>
  "vec_sub a b = (if length a = length b then Inr (map2 (\<lambda>x y. x - y) a b) else Inl ValueError)"

definition lookup :: "('k \<rightharpoonup> 'v) \<Rightarrow> 'k \<Rightarrow> py_error + 'v" where
  \<comment> \<open>\<open>d[k]\<close> on a dict\<close>
  "lookup d k = (case d k of None \<Rightarrow> Inl KeyError | Some v \<Rightarrow> Inr v)"

record solver =
  side :: string
  tip_indices :: "nat list"
  open_thresholds :: "string \<rightharpoonup> real"
  close_thresholds :: "string \<rightharpoonup> real"

definition solver_init :: "bool \<Rightarrow> solver" where
  \<comment> \<open>\<open>__init__\<close>; the argument says whether \<open>side.lower() == "left"\<close>\<close>
  "solver_init is_left =
     \<lparr> side = (if is_left then ''L'' else ''R''),
       tip_indices = [4, 9, 14, 19, 24],
       open_thresholds = [''thumb'' \<mapsto> 9 / 100, ''fingers'' \<mapsto> 10 / 100],
       close_thresholds = [''thumb'' \<mapsto> 5 / 100, ''fingers'' \<mapsto> 6 / 100] \<rparr>"

text \<open>
  \<open>finger[:3, 3]\<close>: the first three rows (a slice, cut silently when there are fewer),
  and of each the entry of column 3.
\<close>

fun column3 :: "'a list list \<Rightarrow> py_error + 'a list" where
  "column3 [] = Inr []"
| "column3 (r # rs) =
     bind_err (getitem r 3) (\<lambda>x. bind_err (column3 rs) (\<lambda>xs. Inr (x # xs)))"

fun positions_of :: "'a list list list \<Rightarrow> py_error + 'a list list" where
  \<comment> \<open>\<open>np.array([finger[:3, 3] for finger in fingertips]).reshape(-1, 3)\<close>\<close>
  "positions_of [] = Inr []"
| "positions_of (finger # rest) =
     bind_err (column3 (take 3 finger)) (\<lambda>p.
       if length p \<noteq> 3 then Inl ValueError
       else bind_err (positions_of rest) (\<lambda>ps. Inr (p # ps)))"

definition thresholds_key :: "bool \<Rightarrow> string" where
  "thresholds_key is_thumb = (if is_thumb then ''thumb'' else ''fingers'')"

text \<open>
  The closure \<open>get_curl\<close>; \<open>positions\<close> and \<open>wrist_pos\<close> are the variables it captures.
  \<open>dist\<close> is a numpy float, so a zero divisor gives inf or nan there and no exception.
\<close>

definition get_curl ::
  "solver \<Rightarrow> real list list \<Rightarrow> real list \<Rightarrow> nat \<Rightarrow> bool \<Rightarrow> py_error + real" where
  "get_curl s positions wrist_pos tip_idx is_thumb =
     bind_err (getitem positions tip_idx) (\<lambda>tip_pos.
     bind_err (vec_sub tip_pos wrist_pos) (\<lambda>diff.
     (let dist = np_norm diff in
     bind_err (lookup (open_thresholds s) (thresholds_key is_thumb)) (\<lambda>t_open.
     bind_err (lookup (close_thresholds s) (thresholds_key is_thumb)) (\<lambda>t_close.
       if t_open - t_close = 0 then Inl NonFinite
       else (let val = (dist - t_close) / (t_open - t_close);
                 val = val * (11 / 10)
             in Inr (np_clip val 0 1)))))))"

definition fill_prefix :: "'a list \<Rightarrow> nat \<Rightarrow> 'a \<Rightarrow> 'a list" where
  \<comment> \<open>\<open>q[:n] = v\<close>\<close>
  "fill_prefix q n v = replicate (min n (length q)) v @ drop n q"

definition solver_call :: "solver \<Rightarrow> (string \<rightharpoonup> tensor) \<Rightarrow> py_error + real list" where
  \<comment> \<open>\<open>__call__\<close>\<close>
  "solver_call s finger_data =
     (let q_desired = np_zeros 7 in
      bind_err (lookup finger_data ''position'') (\<lambda>fingertips.
        if allclose fingertips 0 then Inr (fill_prefix q_desired 6 1)
        else
          bind_err (positions_of fingertips) (\<lambda>positions.
          bind_err (getitem positions 0) (\<lambda>wrist_pos.
          bind_err (getitem (tip_indices s) 0) (\<lambda>i0.
          bind_err (get_curl s positions wrist_pos i0 True) (\<lambda>thumb_curl.
          bind_err (getitem (tip_indices s) 1) (\<lambda>i1.
          bind_err (get_curl s positions wrist_pos i1 False) (\<lambda>index_curl.
          bind_err (getitem (tip_indices s) 2) (\<lambda>i2.
          bind_err (get_curl s positions wrist_pos i2 False) (\<lambda>middle_curl.
          bind_err (getitem (tip_indices s) 3) (\<lambda>i3.
          bind_err (get_curl s positions wrist_pos i3 False) (\<lambda>ring_curl.
          bind_err (getitem (tip_indices s) 4) (\<lambda>i4.
          bind_err (get_curl s positions wrist_pos i4 False) (\<lambda>pinky_curl.
          bind_err (setitem q_desired 0 pinky_curl) (\<lambda>q0.
          bind_err (setitem q0 1 ring_curl) (\<lambda>q1.
          bind_err (setitem q1 2 middle_curl) (\<lambda>q2.
          bind_err (setitem q2 3 index_curl) (\<lambda>q3.
          bind_err (setitem q3 4 thumb_curl) (\<lambda>q4.
          bind_err (setitem q4 5 1) (\<lambda>q5.
            Inr q5))))))))))))))))))))"

text \<open>
  The same solver on numpy floats that can be NaN. NaN is close to nothing
  (\<open>np.allclose\<close> is false on it), every arithmetic operation with a NaN operand gives
  NaN, and \<open>np.clip\<close> passes NaN through.
\<close>

datatype npfloat = Num real | NaN

type_synonym nf_tensor = "npfloat list list list"

definition nf_op2 :: "(real \<Rightarrow> real \<Rightarrow> real) \<Rightarrow> npfloat \<Rightarrow> npfloat \<Rightarrow> npfloat" where
  "nf_op2 f a b =
     (case a of NaN \<Rightarrow> NaN | Num x \<Rightarrow> (case b of NaN \<Rightarrow> NaN | Num y \<Rightarrow> Num (f x y)))"

definition nf_isclose :: "npfloat \<Rightarrow> real \<Rightarrow> bool" where
  "nf_isclose a b = (case a of NaN \<Rightarrow> False | Num x \<Rightarrow> isclose x b)"

definition nf_allclose :: "nf_tensor \<Rightarrow> real \<Rightarrow> bool" where
  "nf_allclose t b = list_all (\<lambda>m. list_all (\<lambda>r. list_all (\<lambda>x. nf_isclose x b) r) m) t"

definition nf_clip :: "npfloat \<Rightarrow> real \<Rightarrow> real \<Rightarrow> npfloat" where
  "nf_clip x lo hi = (case x of NaN \<Rightarrow> NaN | Num r \<Rightarrow> Num (np_clip r lo hi))"

definition num_of :: "npfloat \<Rightarrow> real option" where
  "num_of x = (case x of NaN \<Rightarrow> None | Num r \<Rightarrow> Some r)"

definition nf_norm :: "npfloat list \<Rightarrow> npfloat" where
  "nf_norm v = (case those (map num_of v) of None \<Rightarrow> NaN | Some xs \<Rightarrow> Num (np_norm xs))"

definition nf_vec_sub :: "npfloat list \<Rightarrow> npfloat list \<Rightarrow> py_error + npfloat list" where
  "nf_vec_sub a b =
     (if length a = length b then Inr (map2 (nf_op2 (\<lambda>x y. x - y)) a b) else Inl ValueError)"

definition nf_get_curl ::
  "solver \<Rightarrow> npfloat list list \<Rightarrow> npfloat list \<Rightarrow> nat \<Rightarrow> bool \<Rightarrow> py_error + npfloat" where
  "nf_get_curl s positions wrist_pos tip_idx is_thumb =
     bind_err (getitem positions tip_idx) (\<lambda>tip_pos.
     bind_err (nf_vec_sub tip_pos wrist_pos) (\<lambda>diff.
     (let dist = nf_norm diff in
     bind_err (lookup (open_thresholds s) (thresholds_key is_thumb)) (\<lambda>t_open.
     bind_err (lookup (close_thresholds s) (thresholds_key is_thumb)) (\<lambda>t_close.
       if t_open - t_close = 0 then Inl NonFinite
       else (let val = nf_op2 (\<lambda>x y. x / y) (nf_op2 (\<lambda>x y. x - y) dist (Num t_close))
                         (Num (t_open - t_close));
                 val = nf_op2 (\<lambda>x y. x * y) val (Num (11 / 10))
             in Inr (nf_clip val 0 1)))))))"

definition nf_solver_call :: "solver \<Rightarrow> (string \<rightharpoonup> nf_tensor) \<Rightarrow> py_error + npfloat list" where
  "nf_solver_call s finger_data =
     (let q_desired = map Num (np_zeros 7) in
      bind_err (lookup finger_data ''position'') (\<lambda>fingertips.
        if nf_allclose fingertips 0 then Inr (fill_prefix q_desired 6 (Num 1))
        else
          bind_err (positions_of fingertips) (\<lambda>positions.
          bind_err (getitem positions 0) (\<lambda>wrist_pos.
          bind_err (getitem (tip_indices s) 0) (\<lambda>i0.
          bind_err (nf_get_curl s positions wrist_pos i0 True) (\<lambda>thumb_curl.
          bind_err (getitem (tip_indices s) 1) (\<lambda>i1.
          bind_err (nf_get_curl s positions wrist_pos i1 False) (\<lambda>index_curl.
          bind_err (getitem (tip_indices s) 2) (\<lambda>i2.
          bind_err (nf_get_curl s positions wrist_pos i2 False) (\<lambda>middle_curl.
          bind_err (getitem (tip_indices s) 3) (\<lambda>i3.
          bind_err (nf_get_curl s positions wrist_pos i3 False) (\<lambda>ring_curl.
          bind_err (getitem (tip_indices s) 4) (\<lambda>i4.
          bind_err (nf_get_curl s positions wrist_pos i4 False) (\<lambda>pinky_curl.
          bind_err (setitem q_desired 0 pinky_curl) (\<lambda>q0.
          bind_err (setitem q0 1 ring_curl) (\<lambda>q1.
          bind_err (setitem q1 2 middle_curl) (\<lambda>q2.
          bind_err (setitem q2 3 index_curl) (\<lambda>q3.
          bind_err (setitem q3 4 thumb_curl) (\<lambda>q4.
          bind_err (setitem q4 5 (Num 1)) (\<lambda>q5.
            Inr q5))))))))))))))))))))"


section \<open>The hand tracking client (pico\_hand\_tracking\_client\_streamer.py)\<close>

definition R_HEADSET_TO_WORLD :: matrix where
  "R_HEADSET_TO_WORLD = [[0, 0, -1], [-1, 0, 0], [0, 1, 0]]"

definition dot :: "real list \<Rightarrow> real list \<Rightarrow> real" where
  "dot a b = sum_list (map2 (\<lambda>x y. x * y) a b)"

definition rectangular :: "matrix \<Rightarrow> nat \<Rightarrow> bool" where
  "rectangular m n = list_all (\<lambda>r. length r = n) m"

definition matvec :: "matrix \<Rightarrow> real list \<Rightarrow> py_error + real list" where
  \<comment> \<open>\<open>M @ v\<close>\<close>
  "matvec m v = (if rectangular m (length v) then Inr (map (\<lambda>r. dot r v) m) else Inl ValueError)"

definition matmul :: "matrix \<Rightarrow> matrix \<Rightarrow> py_error + matrix" where
  \<comment> \<open>\<open>A @ B\<close>\<close>
  "matmul a b =
     (case b of
        [] \<Rightarrow> Inl ValueError
      | r0 # _ \<Rightarrow>
          if rectangular b (length r0) \<and> rectangular a (length b)
          then Inr (map (\<lambda>r. map (\<lambda>c. dot r c) (transpose b)) a)
          else Inl ValueError)"

text \<open>
  The three calls into \<open>scipy.spatial.transform.Rotation\<close>, a library outside this
  repository: they are parameters of the model.
\<close>

record scipy_rotation =
  quat_as_matrix :: "real list \<Rightarrow> py_error + matrix"  \<comment> \<open>\<open>R.from_quat(q).as_matrix()\<close>\<close>
  matrix_as_euler_xyz :: "matrix \<Rightarrow> py_error + real list"  \<comment> \<open>\<open>R.from_matrix(m).as_euler("xyz")\<close>\<close>
  euler_z_as_matrix :: "real \<Rightarrow> matrix"  \<comment> \<open>\<open>R.from_euler("z", a).as_matrix()\<close>\<close>

definition pose_matrix :: "matrix \<Rightarrow> real list \<Rightarrow> py_error + matrix" where
  \<comment> \<open>\<open>np.eye(4)\<close> with \<open>[:3, :3] = rot\<close> and \<open>[:3, 3] = pos\<close>\<close>
  "pose_matrix rot pos =
     (if length rot = 3 \<and> rectangular rot 3 \<and> length pos = 3
      then Inr (map2 (\<lambda>r x. r @ [x]) rot pos @ [[0, 0, 0, 1]])
      else Inl ValueError)"

definition quat_or_identity :: "real list \<Rightarrow> real list" where
  "quat_or_identity quat = (if allclose_vec quat 0 then [0, 0, 0, 1] else quat)"

fun joints_loop ::
  "scipy_rotation \<Rightarrow> real list list \<Rightarrow> real list \<Rightarrow> matrix \<Rightarrow> tensor \<Rightarrow> nat list
     \<Rightarrow> py_error + tensor" where
  "joints_loop R hand_joints h_pos inv_yaw_rot fingertips [] = Inr fingertips"
| "joints_loop R hand_joints h_pos inv_yaw_rot fingertips (i # rest) =
     bind_err (getitem hand_joints i) (\<lambda>joint_data.
     (let j_pos_raw = take 3 joint_data;
          j_quat_raw = quat_or_identity (drop 3 joint_data) in
     bind_err (matvec R_HEADSET_TO_WORLD j_pos_raw) (\<lambda>j_pos.
     bind_err (quat_as_matrix R j_quat_raw) (\<lambda>j_rot0.
     bind_err (matmul R_HEADSET_TO_WORLD j_rot0) (\<lambda>j_rot1.
     bind_err (matmul j_rot1 (transpose R_HEADSET_TO_WORLD)) (\<lambda>j_rot.
     bind_err (vec_sub j_pos h_pos) (\<lambda>pos_delta.
     bind_err (matvec inv_yaw_rot pos_delta) (\<lambda>pos_final.
     bind_err (matmul inv_yaw_rot j_rot) (\<lambda>rot_final.
     bind_err (pose_matrix rot_final pos_final) (\<lambda>m.
     bind_err (setitem fingertips i m) (\<lambda>fingertips'.
       joints_loop R hand_joints h_pos inv_yaw_rot fingertips' rest)))))))))))"

definition generate_finger_data ::
  "scipy_rotation \<Rightarrow> real list list option \<Rightarrow> real list option \<Rightarrow> string
     \<Rightarrow> py_error + tensor" where
  \<comment> \<open>\<open>_generate_finger_data\<close>\<close>
  "generate_finger_data R hand_joints headset_pose hand_side =
     (case hand_joints of
        None \<Rightarrow> Inr zeros_tensor
      | Some joints \<Rightarrow>
          if length joints < 25 then Inr zeros_tensor
          else
            (let fingertips = zeros_tensor in
             case headset_pose of
               None \<Rightarrow> Inl TypeError
             | Some pose \<Rightarrow>
                 (let headset_pose_xyz = take 3 pose;
                      headset_pose_quat = quat_or_identity (drop 3 pose) in
                  bind_err (matvec R_HEADSET_TO_WORLD headset_pose_xyz) (\<lambda>h_pos.
                  bind_err (quat_as_matrix R headset_pose_quat) (\<lambda>h_rot0.
                  bind_err (matmul R_HEADSET_TO_WORLD h_rot0) (\<lambda>h_rot1.
                  bind_err (matmul h_rot1 (transpose R_HEADSET_TO_WORLD)) (\<lambda>h_rot.
                  bind_err (matrix_as_euler_xyz R h_rot) (\<lambda>euler.
                  bind_err (getitem euler 2) (\<lambda>headset_yaw.
                  (let inv_yaw_rot = euler_z_as_matrix R (- headset_yaw);
                       num_joints = min (length joints) 25
                   in joints_loop R joints h_pos inv_yaw_rot fingertips [0..<num_joints]))))))))))"

text \<open>
  The request/response exchange of \<open>_request_data\<close>: what the three calls inside its
  \<open>try\<close> did. A reply is the unpickled dict: \<open>r_error\<close> is \<open>Some\<close> when the key
  \<open>"error"\<close> is present, and each other field is what \<open>.get\<close> returns for its key.
\<close>

datatype raised =
    Again  \<comment> \<open>\<open>zmq.Again\<close>: the receive timed out\<close>
  | OtherException  \<comment> \<open>any other subclass of \<open>Exception\<close>\<close>
  | NotAnException  \<comment> \<open>a \<open>BaseException\<close> outside \<open>Exception\<close>\<close>

record reply =
  r_error :: "string option"
  r_headset_pose :: "real list option"
  r_left_hand_joints :: "real list list option"
  r_right_hand_joints :: "real list list option"

datatype exchange =
    SendRaises raised
  | RecvRaises raised
  | LoadsRaises raised
  | Loaded reply

datatype zmq_socket = ReqSocket

record client =
  server_host :: string
  server_port :: nat
  socket :: "zmq_socket option"

record streamer_output =
  ik_data :: "string \<rightharpoonup> (string \<rightharpoonup> tensor)"
  control_data :: "string \<rightharpoonup> real"
  teleop_data :: "string \<rightharpoonup> real"
  data_collection_data :: "string \<rightharpoonup> real"
  source :: string

definition handle_raised :: "raised \<Rightarrow> py_error + reply option" where
  \<comment> \<open>the two \<open>except\<close> clauses: \<open>zmq.Again\<close>, then \<open>Exception\<close>\<close>
  "handle_raised r =
     (case r of Again \<Rightarrow> Inr None | OtherException \<Rightarrow> Inr None | NotAnException \<Rightarrow> Inl Propagated)"

definition request_data :: "client \<Rightarrow> exchange \<Rightarrow> py_error + reply option" where
  \<comment> \<open>\<open>_request_data\<close>\<close>
  "request_data c ex =
     (if socket c = None then Inl RuntimeError
      else case ex of
             SendRaises r \<Rightarrow> handle_raised r
           | RecvRaises r \<Rightarrow> handle_raised r
           | LoadsRaises r \<Rightarrow> handle_raised r
           | Loaded data \<Rightarrow> (if r_error data \<noteq> None then Inr None else Inr (Some data)))"

definition make_output :: "tensor \<Rightarrow> tensor \<Rightarrow> streamer_output" where
  "make_output left_fingers right_fingers =
     \<lparr> ik_data = [''left_fingers'' \<mapsto> [''position'' \<mapsto> left_fingers],
                  ''right_fingers'' \<mapsto> [''position'' \<mapsto> right_fingers]],
       control_data = Map.empty, teleop_data = Map.empty, data_collection_data = Map.empty,
       source = ''pico_hand_tracking'' \<rparr>"

definition streamer_get :: "scipy_rotation \<Rightarrow> client \<Rightarrow> exchange \<Rightarrow> py_error + streamer_output" where
  \<comment> \<open>\<open>get\<close>\<close>
  "streamer_get R c ex =
     bind_err (request_data c ex) (\<lambda>server_data.
       case server_data of
         None \<Rightarrow> Inr (make_output zeros_tensor zeros_tensor)
       | Some data \<Rightarrow>
           (let headset_pose = r_headset_pose data;
                left_hand_joints = r_left_hand_joints data;
                right_hand_joints = r_right_hand_joints data in
            bind_err (generate_finger_data R left_hand_joints headset_pose ''left'') (\<lambda>left_fingers.
            bind_err (generate_finger_data R right_hand_joints headset_pose ''right'') (\<lambda>right_fingers.
              Inr (make_output left_fingers right_fingers)))))"

definition exchange_failed :: "exchange \<Rightarrow> bool" where
  \<comment> \<open>the exchange raised a timeout or another \<open>Exception\<close> while sending, receiving or unpickling\<close>
  "exchange_failed ex =
     (case ex of
        SendRaises r \<Rightarrow> r \<noteq> NotAnException
      | RecvRaises r \<Rightarrow> r \<noteq> NotAnException
      | LoadsRaises r \<Rightarrow> r \<noteq> NotAnException
      | Loaded _ \<Rightarrow> False)"

definition fingers_position :: "streamer_output \<Rightarrow> string \<Rightarrow> py_error + tensor" where
  \<comment> \<open>\<open>out.ik_data[hand]["position"]\<close>\<close>
  "fingers_position out hand = bind_err (lookup (ik_data out) hand) (\<lambda>f. lookup f ''position'')"


section \<open>The teleop policy loop (run\_teleop\_policy\_loop.py)\<close>

text \<open>
  The published action is a dict; the loop writes two float entries into it and leaves
  the rest, whatever the policy put there, alone. The clock readings and the frequency
  are floats, and the loop's arithmetic on them is float arithmetic: \<open>fadd\<close>, \<open>fsub\<close>
  and the rounded quotient of \<open>py_truediv\<close>.
\<close>

datatype 'a pyval = Float real | Other 'a

type_synonym 'a action = "string \<rightharpoonup> 'a pyval"

record teleop_config =
  teleop_frequency :: real

text \<open>
  What one pass of the loop reads from outside: the three readings of the monotonic clock
  and the action that \<open>teleop_policy.get_action()\<close> returned.
\<close>

record 'a cycle_input =
  t_start :: real
  policy_action :: "'a action"
  t_now :: real
  end_time :: real

record 'a loop_state =
  iteration :: nat
  published :: "'a action list"  \<comment> \<open>what \<open>control_publisher.publish\<close> has sent, oldest first\<close>
  slept :: real  \<comment> \<open>total of the \<open>time.sleep\<close> calls for the initial pose\<close>
  missed :: nat  \<comment> \<open>calls of \<open>telemetry.log_timing_info\<close>\<close>

definition time_to_get_to_initial_pose :: real where
  "time_to_get_to_initial_pose = 2"

definition loop_init :: "'a loop_state" where
  "loop_init = \<lparr> iteration = 0, published = [], slept = 0, missed = 0 \<rparr>"

definition py_truediv :: "real \<Rightarrow> real \<Rightarrow> py_error + real" where
  \<comment> \<open>\<open>a / b\<close> on Python numbers, a float\<close>
  "py_truediv a b = (if b = 0 then Inl ZeroDivisionError else Inr (fl (a / b)))"

text \<open>
  One pass of the \<open>while\<close> body. An exception leaves the loop; what was published before
  it stays published, so the state reached is returned next to the exception.
\<close>

definition cycle :: "teleop_config \<Rightarrow> 'a loop_state \<Rightarrow> 'a cycle_input \<Rightarrow> 'a loop_state \<times> py_error option" where
  "cycle config st inp =
     (let data = (policy_action inp)(''timestamp'' \<mapsto> Float (t_now inp));
          target =
            (if iteration st = 0 then Inr (fadd (t_now inp) time_to_get_to_initial_pose)
             else bind_err (py_truediv 1 (teleop_frequency config)) (\<lambda>p. Inr (fadd (t_now inp) p)))
      in case target of
           Inl e \<Rightarrow> (st, Some e)
         | Inr tt \<Rightarrow>
             (let data = data(''target_time'' \<mapsto> Float tt);
                  st1 = st\<lparr> published := published st @ [data] \<rparr>;
                  st2 = (if iteration st = 0
                         then st1\<lparr> slept := slept st1 + time_to_get_to_initial_pose \<rparr> else st1);
                  st3 = st2\<lparr> iteration := iteration st2 + 1 \<rparr>
              in case py_truediv 1 (teleop_frequency config) of
                   Inl e \<Rightarrow> (st3, Some e)
                 | Inr period \<Rightarrow>
                     (if fsub (end_time inp) (t_start inp) > period
                      then (st3\<lparr> missed := missed st3 + 1 \<rparr>, None)
                      else (st3, None))))"

fun run_loop :: "teleop_config \<Rightarrow> 'a loop_state \<Rightarrow> 'a cycle_input list \<Rightarrow> 'a loop_state \<times> py_error option" where
  "run_loop config st [] = (st, None)"
| "run_loop config st (inp # rest) =
     (case cycle config st inp of
        (st', Some e) \<Rightarrow> (st', Some e)
      | (st', None) \<Rightarrow> run_loop config st' rest)"

definition float_entry :: "'a action \<Rightarrow> string \<Rightarrow> py_error + real" where
  \<comment> \<open>\<open>data[k]\<close>, a float\<close>
  "float_entry data k =
     (case data k of None \<Rightarrow> Inl KeyError | Some (Float x) \<Rightarrow> Inr x | Some (Other _) \<Rightarrow> Inl TypeError)"

definition lead_time :: "'a action \<Rightarrow> py_error + real" where
  \<comment> \<open>\<open>target_time\<close> minus \<open>timestamp\<close>: the exact difference of the two published floats\<close>
  "lead_time data =
     bind_err (float_entry data ''target_time'') (\<lambda>tt.
     bind_err (float_entry data ''timestamp'') (\<lambda>ts. Inr (tt - ts)))"

section \<open>Auxiliary notions and sample inputs\<close>

text \<open>What a frame of \<open>n\<close> motor states has done to the mirrors once \<open>_recv_loop\<close> has copied it.\<close>

definition recv_post :: "motor_state list \<Rightarrow> nat \<Rightarrow> driver \<Rightarrow> driver \<Rightarrow> bool" where
  "recv_post states n d d' \<longleftrightarrow>
     length (joint_q d') = length (joint_q d) \<and>
     length (joint_dq d') = length (joint_dq d) \<and>
     length (joint_tau d') = length (joint_tau d) \<and>
     (\<forall>j<length (joint_q d). joint_q d' ! j = (if j < n then st_q (states ! j) else joint_q d ! j)) \<and>
     (\<forall>j<length (joint_dq d). joint_dq d' ! j = (if j < n then st_dq (states ! j) else joint_dq d ! j)) \<and>
     (\<forall>j<length (joint_tau d). joint_tau d' ! j = (if j < n then st_tau_est (states ! j) else joint_tau d ! j)) \<and>
     cmd_q d' = cmd_q d \<and> running d' = running d"

text \<open>
  The Euclidean distance between a fingertip and the wrist landmark, as the first two
  lines of \<open>get_curl\<close> compute it.
\<close>

definition tip_distance :: "real list list \<Rightarrow> real list \<Rightarrow> nat \<Rightarrow> py_error + real" where
  "tip_distance positions wrist_pos tip_idx =
     bind_err (getitem positions tip_idx) (\<lambda>tip_pos.
     bind_err (vec_sub tip_pos wrist_pos) (\<lambda>diff. Inr (np_norm diff)))"

text \<open>
  The duration that cycle \<open>k\<close> of the teleop loop adds to its clock reading: the
  warm-up time in the first cycle, the float \<open>1 / teleop_frequency\<close> afterwards.
\<close>

definition cycle_duration :: "teleop_config \<Rightarrow> nat \<Rightarrow> real" where
  "cycle_duration config k =
     (if k = 0 then time_to_get_to_initial_pose else fl (1 / teleop_frequency config))"

text \<open>
  The loop invariant of the teleop loop, after the cycles \<open>past\<close>: the iteration counter
  counts them, one action is published for each, and action \<open>k\<close> carries the clock
  reading of cycle \<open>k\<close> and the float sum of it and the cycle's duration.
\<close>

definition loop_inv :: "teleop_config \<Rightarrow> 'a cycle_input list \<Rightarrow> 'a loop_state \<Rightarrow> bool" where
  "loop_inv config past st \<longleftrightarrow>
     iteration st = length past \<and> length (published st) = length past \<and>
     (\<forall>k<length past.
        float_entry (published st ! k) ''timestamp'' = Inr (t_now (past ! k)) \<and>
        float_entry (published st ! k) ''target_time'' =
          Inr (fadd (t_now (past ! k)) (cycle_duration config k)))"

text \<open>
  For the NaN-aware solver: a tensor without NaN, a channel inside the unit interval (no
  comparison holds of NaN), and the embedding of a real tensor.
\<close>

definition nan_free :: "nf_tensor \<Rightarrow> bool" where
  "nan_free t = list_all (\<lambda>m. list_all (\<lambda>r. list_all (\<lambda>x. x \<noteq> NaN) r) m) t"

definition in_unit_interval :: "npfloat \<Rightarrow> bool" where
  "in_unit_interval x = (case x of NaN \<Rightarrow> False | Num r \<Rightarrow> 0 \<le> r \<and> r \<le> 1)"

definition lift_tensor :: "tensor \<Rightarrow> nf_tensor" where
  "lift_tensor t = map (map (map Num)) t"

text \<open>
  Concrete inputs: a state frame for motor 0, a command vector of eight entries, a pose
  tensor whose wrist is at the origin and whose other joints are 0.08 m away, a stand-in
  for the rotation library, a started client, a 20 Hz configuration, three loop cycles,
  and the pose tensor with a NaN in the x coordinate of joint 9 (the index fingertip).
\<close>

definition frame1 :: "motor_state list" where
  "frame1 = [\<lparr> st_q = 1 / 2, st_dq = 1 / 4, st_tau_est = 1 / 8 \<rparr>]"

definition cmd8 :: "real list" where
  "cmd8 = [1 / 2, 1 / 4, 0, 0, 0, 0, 9, 9]"

definition pose_at :: "real \<Rightarrow> real \<Rightarrow> real \<Rightarrow> matrix" where
  "pose_at x y z = [[1, 0, 0, x], [0, 1, 0, y], [0, 0, 1, z], [0, 0, 0, 1]]"

definition sample_tensor :: tensor where
  "sample_tensor = pose_at 0 0 0 # replicate 24 (pose_at (2 / 25) 0 0)"

definition nan_tensor :: nf_tensor where
  "nan_tensor =
     (lift_tensor sample_tensor)
       [9 := [[Num 1, Num 0, Num 0, NaN], [Num 0, Num 1, Num 0, Num 0],
              [Num 0, Num 0, Num 1, Num 0], [Num 0, Num 0, Num 0, Num 1]]]"

definition identity_rotation :: scipy_rotation where
  "identity_rotation =
     \<lparr> quat_as_matrix = (\<lambda>q. Inr [[1, 0, 0], [0, 1, 0], [0, 0, 1]]),
       matrix_as_euler_xyz = (\<lambda>m. Inr [0, 0, 0]),
       euler_z_as_matrix = (\<lambda>a. [[1, 0, 0], [0, 1, 0], [0, 0, 1]]) \<rparr>"

definition started_client :: client where
  "started_client = \<lparr> server_host = ''localhost'', server_port = 5557, socket = Some ReqSocket \<rparr>"

definition config20 :: teleop_config where
  "config20 = \<lparr> teleop_frequency = 20 \<rparr>"

definition inputs3 :: "unit cycle_input list" where
  "inputs3 =
     [\<lparr> t_start = 10, policy_action = Map.empty, t_now = 11, end_time = 13 \<rparr>,
      \<lparr> t_start = 14, policy_action = [''timestamp'' \<mapsto> Other ()], t_now = 15, end_time = 15 \<rparr>,
      \<lparr> t_start = 16, policy_action = Map.empty, t_now = 17, end_time = 17 \<rparr>]"

section \<open>Basic facts\<close>

lemma bind_err_Inr [simp]: "bind_err (Inr x) f = f x"
  by (simp add: bind_err_def)

lemma bind_err_Inl [simp]: "bind_err (Inl e) f = Inl e"
  by (simp add: bind_err_def)

lemma bind_err_eq_Inr: "bind_err m f = Inr y \<longleftrightarrow> (\<exists>x. m = Inr x \<and> f x = Inr y)"
  by (cases m) simp_all

lemma replicate_numeral_Cons: "replicate (numeral k) x = x # replicate (pred_numeral k) x"
  by (simp add: numeral_eq_Suc)

section \<open>Properties of the hand driver\<close>

lemma driver_init_lengths:
  "length (joint_q driver_init) = TOTAL_MOTORS" "length (joint_dq driver_init) = TOTAL_MOTORS"
  "length (joint_tau driver_init) = TOTAL_MOTORS" "length (cmd_q driver_init) = TOTAL_MOTORS"
  by (simp_all add: driver_init_def np_zeros_def np_ones_def)

lemma cmd_copy_append:
  "cmd_copy s q c (xs @ ys) = bind_err (cmd_copy s q c xs) (\<lambda>c'. cmd_copy s q c' ys)"
proof (induction xs arbitrary: c)
  case Nil
  show ?case by simp
next
  case (Cons i xs)
  show ?case
  proof (cases "getitem q i")
    case (Inl e)
    then show ?thesis by simp
  next
    case (Inr v)
    then show ?thesis
      by (cases "setitem c (s + i) v") (simp_all add: Cons.IH)
  qed
qed

lemma cmd_copy_upt:
  assumes "n \<le> length q" and "s + n \<le> length c"
  shows "\<exists>c'. cmd_copy s q c [0..<n] = Inr c' \<and> length c' = length c \<and>
           (\<forall>j<length c. c' ! j = (if s \<le> j \<and> j < s + n then q ! (j - s) else c ! j))"
  using assms
proof (induction n)
  case 0
  show ?case by simp
next
  case (Suc n)
  then obtain c1 where c1: "cmd_copy s q c [0..<n] = Inr c1" "length c1 = length c"
    and nth1: "\<forall>j<length c. c1 ! j = (if s \<le> j \<and> j < s + n then q ! (j - s) else c ! j)"
    by auto
  have step: "cmd_copy s q c [0..<Suc n] = Inr (c1[s + n := q ! n])"
    using Suc.prems c1 by (simp add: cmd_copy_append getitem_def setitem_def)
  have "\<forall>j<length c. (c1[s + n := q ! n]) ! j =
          (if s \<le> j \<and> j < s + Suc n then q ! (j - s) else c ! j)"
  proof (intro allI impI)
    fix j assume j: "j < length c"
    show "(c1[s + n := q ! n]) ! j = (if s \<le> j \<and> j < s + Suc n then q ! (j - s) else c ! j)"
    proof (cases "j = s + n")
      case True
      then show ?thesis using j c1 by simp
    next
      case False
      then show ?thesis using j nth1 by (auto simp: nth_list_update)
    qed
  qed
  then show ?case using step c1 by simp
qed

lemma set_hand_cmd_char:
  assumes "length (cmd_q d) = TOTAL_MOTORS"
  shows "\<exists>c'. set_hand_cmd d is_left q_cmd = Inr (d\<lparr> cmd_q := c' \<rparr>) \<and>
           length c' = length (cmd_q d) \<and>
           (\<forall>j<length (cmd_q d). c' ! j =
              (if start_idx_of is_left \<le> j \<and> j < start_idx_of is_left + min (length q_cmd) 6
               then q_cmd ! (j - start_idx_of is_left) else cmd_q d ! j))"
proof -
  have "min (length q_cmd) 6 \<le> length q_cmd" by simp
  moreover have "start_idx_of is_left + min (length q_cmd) 6 \<le> length (cmd_q d)"
    using assms by (simp add: start_idx_of_def TOTAL_MOTORS_def min_def)
  ultimately obtain c' where
    "cmd_copy (start_idx_of is_left) q_cmd (cmd_q d) [0..<min (length q_cmd) 6] = Inr c'"
    "length c' = length (cmd_q d)"
    "\<forall>j<length (cmd_q d). c' ! j =
       (if start_idx_of is_left \<le> j \<and> j < start_idx_of is_left + min (length q_cmd) 6
        then q_cmd ! (j - start_idx_of is_left) else cmd_q d ! j)"
    using cmd_copy_upt by blast
  then show ?thesis
    by (auto simp: set_hand_cmd_def Let_def)
qed

lemma recv_copy_append:
  "recv_copy states d (xs @ ys) = bind_err (recv_copy states d xs) (\<lambda>d'. recv_copy states d' ys)"
proof (induction xs arbitrary: d)
  case Nil
  show ?case by simp
next
  case (Cons i xs)
  show ?case
    by (simp add: Cons.IH bind_err_def split: sum.splits)
qed

lemma recv_copy_upt:
  assumes "n \<le> length states" and "n \<le> length (joint_q d)" and "n \<le> length (joint_dq d)"
    and "n \<le> length (joint_tau d)"
  shows "\<exists>d'. recv_copy states d [0..<n] = Inr d' \<and> recv_post states n d d'"
  using assms
proof (induction n)
  case 0
  show ?case by (simp add: recv_post_def)
next
  case (Suc n)
  then obtain d1 where d1: "recv_copy states d [0..<n] = Inr d1" and p1: "recv_post states n d d1"
    by auto
  define d2 where "d2 = d1\<lparr> joint_q := (joint_q d1)[n := st_q (states ! n)],
      joint_dq := (joint_dq d1)[n := st_dq (states ! n)],
      joint_tau := (joint_tau d1)[n := st_tau_est (states ! n)] \<rparr>"
  have lens: "n < length (joint_q d1)" "n < length (joint_dq d1)" "n < length (joint_tau d1)"
    using Suc.prems p1 by (simp_all add: recv_post_def)
  have step: "recv_copy states d [0..<Suc n] = Inr d2"
    using Suc.prems d1 lens by (simp add: recv_copy_append getitem_def setitem_def d2_def)
  have "recv_post states (Suc n) d d2"
    using p1 lens unfolding recv_post_def d2_def
    by (auto simp: nth_list_update less_Suc_eq)
  then show ?case using step by blast
qed

lemma recv_frame1:
  "recv_step driver_init (Some frame1) =
     Inr (driver_init\<lparr> joint_q := [1 / 2, 0, 0, 0, 0, 0, 0, 0, 0, 0, 0, 0],
                       joint_dq := [1 / 4, 0, 0, 0, 0, 0, 0, 0, 0, 0, 0, 0],
                       joint_tau := [1 / 8, 0, 0, 0, 0, 0, 0, 0, 0, 0, 0, 0] \<rparr>)"
  by (simp add: recv_step_def frame1_def driver_init_def TOTAL_MOTORS_def np_zeros_def np_ones_def
      getitem_def setitem_def replicate_numeral_Cons)

text \<open>
  C1, as claimed: the arrays returned by \<open>get_hand_state\<close> would be copies, so an update of
  the mirror by the ingestion loop would leave the values read through them unchanged.
  This fails: the method returns basic slices, which are views of the mirror. After the
  frame \<open>frame1\<close> the position array returned before the update reads \<open>[1/2, 0, ...]\<close>
  and no longer \<open>[0, 0, ...]\<close>.
\<close>

theorem get_hand_state_copy_counterexample:
  "recv_step driver_init (Some frame1) =
     Inr (driver_init\<lparr> joint_q := [1 / 2, 0, 0, 0, 0, 0, 0, 0, 0, 0, 0, 0],
                       joint_dq := [1 / 4, 0, 0, 0, 0, 0, 0, 0, 0, 0, 0, 0],
                       joint_tau := [1 / 8, 0, 0, 0, 0, 0, 0, 0, 0, 0, 0, 0] \<rparr>) \<and>
   view_read driver_init (fst (get_hand_state driver_init False)) = [0, 0, 0, 0, 0, 0] \<and>
   view_read (driver_init\<lparr> joint_q := [1 / 2, 0, 0, 0, 0, 0, 0, 0, 0, 0, 0, 0],
                       joint_dq := [1 / 4, 0, 0, 0, 0, 0, 0, 0, 0, 0, 0, 0],
                       joint_tau := [1 / 8, 0, 0, 0, 0, 0, 0, 0, 0, 0, 0, 0] \<rparr>)
     (fst (get_hand_state driver_init False)) = [1 / 2, 0, 0, 0, 0, 0] \<and>
   view_read (driver_init\<lparr> joint_q := [1 / 2, 0, 0, 0, 0, 0, 0, 0, 0, 0, 0, 0],
                       joint_dq := [1 / 4, 0, 0, 0, 0, 0, 0, 0, 0, 0, 0, 0],
                       joint_tau := [1 / 8, 0, 0, 0, 0, 0, 0, 0, 0, 0, 0, 0] \<rparr>)
     (fst (get_hand_state driver_init False))
     \<noteq> view_read driver_init (fst (get_hand_state driver_init False))"
proof (intro conjI)
  show "recv_step driver_init (Some frame1) =
     Inr (driver_init\<lparr> joint_q := [1 / 2, 0, 0, 0, 0, 0, 0, 0, 0, 0, 0, 0],
                       joint_dq := [1 / 4, 0, 0, 0, 0, 0, 0, 0, 0, 0, 0, 0],
                       joint_tau := [1 / 8, 0, 0, 0, 0, 0, 0, 0, 0, 0, 0, 0] \<rparr>)"
    by (rule recv_frame1)
  show "view_read driver_init (fst (get_hand_state driver_init False)) = [0, 0, 0, 0, 0, 0]"
    by (simp add: get_hand_state_def start_idx_of_def view_read_def backing_def
        driver_init_def TOTAL_MOTORS_def np_zeros_def replicate_numeral_Cons)
  show "view_read (driver_init\<lparr> joint_q := [1 / 2, 0, 0, 0, 0, 0, 0, 0, 0, 0, 0, 0],
                       joint_dq := [1 / 4, 0, 0, 0, 0, 0, 0, 0, 0, 0, 0, 0],
                       joint_tau := [1 / 8, 0, 0, 0, 0, 0, 0, 0, 0, 0, 0, 0] \<rparr>)
     (fst (get_hand_state driver_init False)) = [1 / 2, 0, 0, 0, 0, 0]"
    by (simp add: get_hand_state_def start_idx_of_def view_read_def backing_def)
  show "view_read (driver_init\<lparr> joint_q := [1 / 2, 0, 0, 0, 0, 0, 0, 0, 0, 0, 0, 0],
                       joint_dq := [1 / 4, 0, 0, 0, 0, 0, 0, 0, 0, 0, 0, 0],
                       joint_tau := [1 / 8, 0, 0, 0, 0, 0, 0, 0, 0, 0, 0, 0] \<rparr>)
     (fst (get_hand_state driver_init False))
     \<noteq> view_read driver_init (fst (get_hand_state driver_init False))"
    by (simp add: get_hand_state_def start_idx_of_def view_read_def backing_def
        driver_init_def TOTAL_MOTORS_def np_zeros_def replicate_numeral_Cons)
qed

text \<open>
  C1, amended: for every group id, the arrays returned by \<open>get_hand_state\<close> are views of
  the state mirror. Read at call time they hold the six mirror slots of the addressed
  hand; read after an update by the ingestion loop they hold the updated slots: slot \<open>i\<close>
  shows the value the frame wrote when the frame covers mirror index \<open>start + i\<close>, and the
  value at call time otherwise. The update itself never fails on mirrors of 12 slots.
\<close>

theorem get_hand_state_views_follow_mirror:
  assumes "length (joint_q d) = TOTAL_MOTORS" and "length (joint_dq d) = TOTAL_MOTORS"
    and "length (joint_tau d) = TOTAL_MOTORS"
    and "get_hand_state d is_left = (vq, vdq, vtau)"
  shows "view_read d vq = take 6 (drop (start_idx_of is_left) (joint_q d)) \<and>
         view_read d vdq = take 6 (drop (start_idx_of is_left) (joint_dq d)) \<and>
         view_read d vtau = take 6 (drop (start_idx_of is_left) (joint_tau d)) \<and>
         (\<exists>d'. recv_step d (Some states) = Inr d' \<and>
            (\<forall>i<6. view_read d' vq ! i =
               (if start_idx_of is_left + i < length states
                then st_q (states ! (start_idx_of is_left + i))
                else joint_q d ! (start_idx_of is_left + i))) \<and>
            (\<forall>i<6. view_read d' vdq ! i =
               (if start_idx_of is_left + i < length states
                then st_dq (states ! (start_idx_of is_left + i))
                else joint_dq d ! (start_idx_of is_left + i))) \<and>
            (\<forall>i<6. view_read d' vtau ! i =
               (if start_idx_of is_left + i < length states
                then st_tau_est (states ! (start_idx_of is_left + i))
                else joint_tau d ! (start_idx_of is_left + i))))"
proof -
  let ?s = "start_idx_of is_left"
  let ?n = "min (length states) TOTAL_MOTORS"
  have vq: "vq = \<lparr> v_base = JointQ, v_start = ?s, v_stop = ?s + 6 \<rparr>"
    and vdq: "vdq = \<lparr> v_base = JointDq, v_start = ?s, v_stop = ?s + 6 \<rparr>"
    and vtau: "vtau = \<lparr> v_base = JointTau, v_start = ?s, v_stop = ?s + 6 \<rparr>"
    using assms(4) by (simp_all add: get_hand_state_def Let_def)
  have s12: "?s + 6 \<le> 12" by (simp add: start_idx_of_def)
  have now: "view_read d vq = take 6 (drop ?s (joint_q d))"
      "view_read d vdq = take 6 (drop ?s (joint_dq d))"
      "view_read d vtau = take 6 (drop ?s (joint_tau d))"
    by (simp_all add: vq vdq vtau view_read_def backing_def)
  obtain d' where d': "recv_copy states d [0..<?n] = Inr d'" and post: "recv_post states ?n d d'"
    using recv_copy_upt [of ?n states d] assms(1-3) by auto
  have step: "recv_step d (Some states) = Inr d'"
    using d' by (simp add: recv_step_def Let_def)
  have lens: "length (joint_q d') = 12" "length (joint_dq d') = 12" "length (joint_tau d') = 12"
    using post assms(1-3) by (simp_all add: recv_post_def TOTAL_MOTORS_def)
  have q: "view_read d' vq ! i =
             (if ?s + i < length states then st_q (states ! (?s + i)) else joint_q d ! (?s + i))"
    if "i < 6" for i
  proof -
    have "view_read d' vq ! i = joint_q d' ! (?s + i)"
      using that s12 lens by (simp add: vq view_read_def backing_def)
    moreover have "?s + i < length (joint_q d)"
      using that s12 assms(1) by (simp add: TOTAL_MOTORS_def)
    ultimately show ?thesis
      using post that s12 by (simp add: recv_post_def TOTAL_MOTORS_def)
  qed
  have dq: "view_read d' vdq ! i =
             (if ?s + i < length states then st_dq (states ! (?s + i)) else joint_dq d ! (?s + i))"
    if "i < 6" for i
  proof -
    have "view_read d' vdq ! i = joint_dq d' ! (?s + i)"
      using that s12 lens by (simp add: vdq view_read_def backing_def)
    moreover have "?s + i < length (joint_dq d)"
      using that s12 assms(2) by (simp add: TOTAL_MOTORS_def)
    ultimately show ?thesis
      using post that s12 by (simp add: recv_post_def TOTAL_MOTORS_def)
  qed
  have tau: "view_read d' vtau ! i =
             (if ?s + i < length states then st_tau_est (states ! (?s + i)) else joint_tau d ! (?s + i))"
    if "i < 6" for i
  proof -
    have "view_read d' vtau ! i = joint_tau d' ! (?s + i)"
      using that s12 lens by (simp add: vtau view_read_def backing_def)
    moreover have "?s + i < length (joint_tau d)"
      using that s12 assms(3) by (simp add: TOTAL_MOTORS_def)
    ultimately show ?thesis
      using post that s12 by (simp add: recv_post_def TOTAL_MOTORS_def)
  qed
  show ?thesis using now step q dq tau by blast
qed

theorem get_hand_state_views_follow_mirror_witness:
  "length (joint_q driver_init) = TOTAL_MOTORS \<and> length (joint_dq driver_init) = TOTAL_MOTORS \<and>
   length (joint_tau driver_init) = TOTAL_MOTORS \<and>
   get_hand_state driver_init False =
     (\<lparr> v_base = JointQ, v_start = 0, v_stop = 6 \<rparr>, \<lparr> v_base = JointDq, v_start = 0, v_stop = 6 \<rparr>,
      \<lparr> v_base = JointTau, v_start = 0, v_stop = 6 \<rparr>) \<and>
   view_read driver_init \<lparr> v_base = JointQ, v_start = 0, v_stop = 6 \<rparr> = [0, 0, 0, 0, 0, 0] \<and>
   (\<exists>d'. recv_step driver_init (Some frame1) = Inr d' \<and>
      view_read d' \<lparr> v_base = JointQ, v_start = 0, v_stop = 6 \<rparr> ! 0 = 1 / 2 \<and>
      view_read d' \<lparr> v_base = JointQ, v_start = 0, v_stop = 6 \<rparr> ! 1 = 0 \<and>
      view_read d' \<lparr> v_base = JointDq, v_start = 0, v_stop = 6 \<rparr> ! 0 = 1 / 4 \<and>
      view_read d' \<lparr> v_base = JointTau, v_start = 0, v_stop = 6 \<rparr> ! 0 = 1 / 8)"
proof -
  have g: "get_hand_state driver_init False =
     (\<lparr> v_base = JointQ, v_start = 0, v_stop = 6 \<rparr>, \<lparr> v_base = JointDq, v_start = 0, v_stop = 6 \<rparr>,
      \<lparr> v_base = JointTau, v_start = 0, v_stop = 6 \<rparr>)"
    by (simp add: get_hand_state_def start_idx_of_def)
  have z: "take 6 (drop (start_idx_of False) (joint_q driver_init)) = [0, 0, 0, 0, 0, 0]"
    by (simp add: start_idx_of_def driver_init_def np_zeros_def TOTAL_MOTORS_def replicate_numeral_Cons)
  note t = get_hand_state_views_follow_mirror [OF driver_init_lengths(1-3) g, of frame1]
  from t obtain d' where d': "recv_step driver_init (Some frame1) = Inr d'"
    and q: "\<forall>i<6. view_read d' \<lparr> v_base = JointQ, v_start = 0, v_stop = 6 \<rparr> ! i =
               (if start_idx_of False + i < length frame1
                then st_q (frame1 ! (start_idx_of False + i))
                else joint_q driver_init ! (start_idx_of False + i))"
    and dq: "\<forall>i<6. view_read d' \<lparr> v_base = JointDq, v_start = 0, v_stop = 6 \<rparr> ! i =
               (if start_idx_of False + i < length frame1
                then st_dq (frame1 ! (start_idx_of False + i))
                else joint_dq driver_init ! (start_idx_of False + i))"
    and tau: "\<forall>i<6. view_read d' \<lparr> v_base = JointTau, v_start = 0, v_stop = 6 \<rparr> ! i =
               (if start_idx_of False + i < length frame1
                then st_tau_est (frame1 ! (start_idx_of False + i))
                else joint_tau driver_init ! (start_idx_of False + i))"
    by blast
  have "view_read d' \<lparr> v_base = JointQ, v_start = 0, v_stop = 6 \<rparr> ! 0 = 1 / 2"
    using q [rule_format, of 0] by (simp add: start_idx_of_def frame1_def)
  moreover have "view_read d' \<lparr> v_base = JointQ, v_start = 0, v_stop = 6 \<rparr> ! 1 = 0"
    using q [rule_format, of 1]
    by (simp add: start_idx_of_def frame1_def driver_init_def np_zeros_def TOTAL_MOTORS_def)
  moreover have "view_read d' \<lparr> v_base = JointDq, v_start = 0, v_stop = 6 \<rparr> ! 0 = 1 / 4"
    using dq [rule_format, of 0] by (simp add: start_idx_of_def frame1_def)
  moreover have "view_read d' \<lparr> v_base = JointTau, v_start = 0, v_stop = 6 \<rparr> ! 0 = 1 / 8"
    using tau [rule_format, of 0] by (simp add: start_idx_of_def frame1_def)
  moreover have "view_read driver_init \<lparr> v_base = JointQ, v_start = 0, v_stop = 6 \<rparr> = [0, 0, 0, 0, 0, 0]"
    using t z by simp
  ultimately show ?thesis using d' g driver_init_lengths by blast
qed

text \<open>
  C6: for every target vector \<open>q_cmd\<close>, \<open>set_hand_cmd\<close> returns without an exception,
  writes entry \<open>i\<close> of the vector into command slot \<open>start + i\<close> of the addressed hand for
  exactly the \<open>i < min (len q_cmd) 6\<close>, and ignores the entries from index 6 on: the call
  with the vector cut to six entries gives the same driver state.
\<close>

theorem set_hand_cmd_writes_prefix:
  assumes "length (cmd_q d) = TOTAL_MOTORS"
  shows "\<exists>d'. set_hand_cmd d is_left q_cmd = Inr d' \<and>
           (\<forall>i<min (length q_cmd) 6. cmd_q d' ! (start_idx_of is_left + i) = q_cmd ! i) \<and>
           set_hand_cmd d is_left (take 6 q_cmd) = Inr d'"
proof -
  obtain c1 where c1: "set_hand_cmd d is_left q_cmd = Inr (d\<lparr> cmd_q := c1 \<rparr>)"
      "length c1 = length (cmd_q d)"
    and n1: "\<forall>j<length (cmd_q d). c1 ! j =
              (if start_idx_of is_left \<le> j \<and> j < start_idx_of is_left + min (length q_cmd) 6
               then q_cmd ! (j - start_idx_of is_left) else cmd_q d ! j)"
    using set_hand_cmd_char [OF assms] by blast
  obtain c2 where c2: "set_hand_cmd d is_left (take 6 q_cmd) = Inr (d\<lparr> cmd_q := c2 \<rparr>)"
      "length c2 = length (cmd_q d)"
    and n2: "\<forall>j<length (cmd_q d). c2 ! j =
              (if start_idx_of is_left \<le> j \<and> j < start_idx_of is_left + min (length (take 6 q_cmd)) 6
               then take 6 q_cmd ! (j - start_idx_of is_left) else cmd_q d ! j)"
    using set_hand_cmd_char [OF assms] by blast
  have "c1 = c2"
  proof (rule nth_equalityI)
    show "length c1 = length c2" using c1 c2 by simp
  next
    fix j assume "j < length c1"
    then have j: "j < length (cmd_q d)" using c1 by simp
    show "c1 ! j = c2 ! j"
      using n1 n2 j by (auto simp: min_def)
  qed
  moreover have "\<forall>i<min (length q_cmd) 6. c1 ! (start_idx_of is_left + i) = q_cmd ! i"
    using n1 assms by (auto simp: start_idx_of_def TOTAL_MOTORS_def)
  ultimately show ?thesis using c1 c2 by auto
qed

theorem set_hand_cmd_writes_prefix_witness:
  "length (cmd_q driver_init) = TOTAL_MOTORS \<and>
   (\<exists>d'. set_hand_cmd driver_init True cmd8 = Inr d' \<and>
      cmd_q d' ! 6 = 1 / 2 \<and> cmd_q d' ! 7 = 1 / 4 \<and> cmd_q d' ! 11 = 0 \<and>
      set_hand_cmd driver_init True [1 / 2, 1 / 4, 0, 0, 0, 0] = Inr d')"
proof -
  from set_hand_cmd_writes_prefix [OF driver_init_lengths(4), of True cmd8]
  obtain d' where d': "set_hand_cmd driver_init True cmd8 = Inr d'"
    and w: "\<forall>i<min (length cmd8) 6. cmd_q d' ! (start_idx_of True + i) = cmd8 ! i"
    and t: "set_hand_cmd driver_init True (take 6 cmd8) = Inr d'"
    by blast
  have "cmd_q d' ! 6 = 1 / 2" using w [rule_format, of 0] by (simp add: cmd8_def start_idx_of_def)
  moreover have "cmd_q d' ! 7 = 1 / 4" using w [rule_format, of 1] by (simp add: cmd8_def start_idx_of_def)
  moreover have "cmd_q d' ! 11 = 0" using w [rule_format, of 5] by (simp add: cmd8_def start_idx_of_def)
  moreover have "set_hand_cmd driver_init True [1 / 2, 1 / 4, 0, 0, 0, 0] = Inr d'"
    using t by (simp add: cmd8_def)
  ultimately show ?thesis using d' driver_init_lengths(4) by blast
qed

text \<open>
  C9: \<open>set_hand_cmd\<close> leaves the six command slots of the other hand unchanged, and of
  the addressed hand the slots at indices from \<open>len q_cmd\<close> on; the command mirror keeps
  its length and the state mirrors are untouched.
\<close>

theorem set_hand_cmd_frame:
  assumes "length (cmd_q d) = TOTAL_MOTORS" and "set_hand_cmd d is_left q_cmd = Inr d'"
  shows "(\<forall>j<6. cmd_q d' ! (start_idx_of (\<not> is_left) + j) = cmd_q d ! (start_idx_of (\<not> is_left) + j)) \<and>
         (\<forall>j. length q_cmd \<le> j \<and> j < 6 \<longrightarrow>
            cmd_q d' ! (start_idx_of is_left + j) = cmd_q d ! (start_idx_of is_left + j)) \<and>
         length (cmd_q d') = length (cmd_q d) \<and>
         joint_q d' = joint_q d \<and> joint_dq d' = joint_dq d \<and> joint_tau d' = joint_tau d"
proof -
  obtain c1 where c1: "set_hand_cmd d is_left q_cmd = Inr (d\<lparr> cmd_q := c1 \<rparr>)"
      "length c1 = length (cmd_q d)"
    and n1: "\<forall>j<length (cmd_q d). c1 ! j =
              (if start_idx_of is_left \<le> j \<and> j < start_idx_of is_left + min (length q_cmd) 6
               then q_cmd ! (j - start_idx_of is_left) else cmd_q d ! j)"
    using set_hand_cmd_char [OF assms(1)] by blast
  have d': "d' = d\<lparr> cmd_q := c1 \<rparr>" using c1 assms(2) by simp
  have "\<forall>j<6. c1 ! (start_idx_of (\<not> is_left) + j) = cmd_q d ! (start_idx_of (\<not> is_left) + j)"
    using n1 assms(1) by (auto simp: start_idx_of_def TOTAL_MOTORS_def)
  moreover have "\<forall>j. length q_cmd \<le> j \<and> j < 6 \<longrightarrow>
            c1 ! (start_idx_of is_left + j) = cmd_q d ! (start_idx_of is_left + j)"
    using n1 assms(1) by (auto simp: start_idx_of_def TOTAL_MOTORS_def)
  ultimately show ?thesis using d' c1 by simp
qed

theorem set_hand_cmd_frame_witness:
  "length (cmd_q driver_init) = TOTAL_MOTORS \<and>
   set_hand_cmd driver_init True [1 / 2, 1 / 4] =
     Inr (driver_init\<lparr> cmd_q := [1, 1, 1, 1, 1, 1, 1 / 2, 1 / 4, 1, 1, 1, 1] \<rparr>) \<and>
   cmd_q (driver_init\<lparr> cmd_q := [1, 1, 1, 1, 1, 1, 1 / 2, 1 / 4, 1, 1, 1, 1] \<rparr>) ! 0 = cmd_q driver_init ! 0 \<and>
   cmd_q (driver_init\<lparr> cmd_q := [1, 1, 1, 1, 1, 1, 1 / 2, 1 / 4, 1, 1, 1, 1] \<rparr>) ! 8 = cmd_q driver_init ! 8 \<and>
   joint_q (driver_init\<lparr> cmd_q := [1, 1, 1, 1, 1, 1, 1 / 2, 1 / 4, 1, 1, 1, 1] \<rparr>) = joint_q driver_init"
proof -
  let ?d' = "driver_init\<lparr> cmd_q := [1, 1, 1, 1, 1, 1, 1 / 2, 1 / 4, 1, 1, 1, 1] \<rparr>"
  have run: "set_hand_cmd driver_init True [1 / 2, 1 / 4] = Inr ?d'"
    by (simp add: set_hand_cmd_def start_idx_of_def driver_init_def np_ones_def TOTAL_MOTORS_def
        getitem_def setitem_def replicate_numeral_Cons upt_conv_Cons)
  note t = set_hand_cmd_frame [OF driver_init_lengths(4) run]
  have "cmd_q ?d' ! 0 = cmd_q driver_init ! 0"
    using t [THEN conjunct1, rule_format, of 0] by (simp add: start_idx_of_def)
  moreover have "cmd_q ?d' ! 8 = cmd_q driver_init ! 8"
    using t [THEN conjunct2, THEN conjunct1, rule_format, of 2] by (simp add: start_idx_of_def)
  moreover have "joint_q ?d' = joint_q driver_init"
    using t by blast
  ultimately show ?thesis using run driver_init_lengths(4) by blast
qed

section \<open>Properties of the gripper solver\<close>

lemma np_clip_unit: "0 \<le> np_clip x 0 1 \<and> np_clip x 0 1 \<le> 1"
  by (simp add: np_clip_def)

lemma np_clip_mono: "x \<le> y \<Longrightarrow> np_clip x lo hi \<le> np_clip y lo hi"
  by (auto simp: np_clip_def min_def max_def)

lemma get_curl_unit:
  assumes "get_curl s positions wrist_pos tip_idx is_thumb = Inr c"
  shows "0 \<le> c \<and> c \<le> 1"
  using assms np_clip_unit
  by (auto simp: get_curl_def bind_err_eq_Inr Let_def split: if_splits)

lemma column3_rows:
  assumes "list_all (\<lambda>r. length r = 4) rs"
  shows "column3 rs = Inr (map (\<lambda>r. r ! 3) rs)"
  using assms by (induction rs) (simp_all add: getitem_def)

lemma positions_of_shape:
  assumes "has_shape44 t"
  shows "\<exists>ps. positions_of t = Inr ps \<and> length ps = length t \<and> list_all (\<lambda>p. length p = 3) ps"
  using assms
proof (induction t)
  case Nil
  show ?case by simp
next
  case (Cons m t)
  then have m: "length m = 4" "list_all (\<lambda>r. length r = 4) m" and t: "has_shape44 t"
    by (simp_all add: has_shape44_def)
  have "list_all (\<lambda>r. length r = 4) (take 3 m)"
    using m(2) by (auto simp: list_all_iff dest: in_set_takeD)
  then have c: "column3 (take 3 m) = Inr (map (\<lambda>r. r ! 3) (take 3 m))"
    by (rule column3_rows)
  obtain ps where ps: "positions_of t = Inr ps" "length ps = length t" "list_all (\<lambda>p. length p = 3) ps"
    using Cons.IH t by blast
  show ?case using c m(1) ps by simp
qed

lemma solver_init_lookups:
  "lookup (open_thresholds (solver_init b)) (thresholds_key True) = Inr (9 / 100)"
  "lookup (open_thresholds (solver_init b)) (thresholds_key False) = Inr (10 / 100)"
  "lookup (close_thresholds (solver_init b)) (thresholds_key True) = Inr (5 / 100)"
  "lookup (close_thresholds (solver_init b)) (thresholds_key False) = Inr (6 / 100)"
  by (simp_all add: solver_init_def lookup_def thresholds_key_def)

lemma get_curl_init_total:
  assumes "tip_idx < length positions" and "length (positions ! tip_idx) = length wrist_pos"
  shows "\<exists>c. get_curl (solver_init b) positions wrist_pos tip_idx is_thumb = Inr c"
  using assms
  by (cases is_thumb) (simp_all add: get_curl_def getitem_def vec_sub_def solver_init_lookups Let_def)

lemma solver_call_zero_branch:
  assumes "finger_data ''position'' = Some fingertips" and "allclose fingertips 0"
  shows "solver_call s finger_data = Inr [1, 1, 1, 1, 1, 1, 0]"
  using assms
  by (simp add: solver_call_def lookup_def fill_prefix_def np_zeros_def replicate_numeral_Cons)

lemma solver_call_shape:
  assumes "solver_call s finger_data = Inr q"
  shows "q = [1, 1, 1, 1, 1, 1, 0] \<or>
         (\<exists>c0 c1 c2 c3 c4. q = [c0, c1, c2, c3, c4, 1, 0] \<and>
            (0 \<le> c0 \<and> c0 \<le> 1) \<and> (0 \<le> c1 \<and> c1 \<le> 1) \<and> (0 \<le> c2 \<and> c2 \<le> 1) \<and>
            (0 \<le> c3 \<and> c3 \<le> 1) \<and> (0 \<le> c4 \<and> c4 \<le> 1))"
proof -
  obtain fingertips where f: "finger_data ''position'' = Some fingertips"
    using assms by (auto simp: solver_call_def lookup_def bind_err_eq_Inr split: option.splits)
  show ?thesis
  proof (cases "allclose fingertips 0")
    case True
    then show ?thesis using assms f solver_call_zero_branch by fastforce
  next
    case False
    from assms f False obtain positions wrist_pos i0 i1 i2 i3 i4 thumb_curl index_curl middle_curl
        ring_curl pinky_curl
      where c: "get_curl s positions wrist_pos i0 True = Inr thumb_curl"
        "get_curl s positions wrist_pos i1 False = Inr index_curl"
        "get_curl s positions wrist_pos i2 False = Inr middle_curl"
        "get_curl s positions wrist_pos i3 False = Inr ring_curl"
        "get_curl s positions wrist_pos i4 False = Inr pinky_curl"
      and q: "q = [pinky_curl, ring_curl, middle_curl, index_curl, thumb_curl, 1, 0]"
      by (auto simp: solver_call_def lookup_def bind_err_eq_Inr setitem_def np_zeros_def
          replicate_numeral_Cons)
    show ?thesis using q c [THEN get_curl_unit] by blast
  qed
qed

lemma solver_call_init_total:
  assumes "finger_data ''position'' = Some fingertips" and "has_shape44 fingertips"
    and "25 \<le> length fingertips"
  shows "\<exists>q. solver_call (solver_init b) finger_data = Inr q"
proof (cases "allclose fingertips 0")
  case True
  then show ?thesis using assms(1) solver_call_zero_branch by blast
next
  case False
  obtain ps where ps: "positions_of fingertips = Inr ps" "length ps = length fingertips"
      "list_all (\<lambda>p. length p = 3) ps"
    using positions_of_shape [OF assms(2)] by blast
  have len: "25 \<le> length ps" using ps(2) assms(3) by simp
  have l3: "length (ps ! i) = 3" if "i < length ps" for i
    using ps(3) that by (simp add: list_all_length)
  have curl: "\<exists>c. get_curl (solver_init b) ps (ps ! 0) i th = Inr c" if "i < 25" for i th
  proof (rule get_curl_init_total)
    show "i < length ps" using that len by simp
    then have "length (ps ! i) = 3" by (rule l3)
    moreover have "0 < length ps" using len by linarith
    then have "length (ps ! 0) = 3" by (rule l3)
    ultimately show "length (ps ! i) = length (ps ! 0)" by simp
  qed
  obtain c0 where c0: "get_curl (solver_init b) ps (ps ! 0) 4 True = Inr c0" using curl [of 4] by auto
  obtain c1 where c1: "get_curl (solver_init b) ps (ps ! 0) 9 False = Inr c1" using curl [of 9] by auto
  obtain c2 where c2: "get_curl (solver_init b) ps (ps ! 0) 14 False = Inr c2" using curl [of 14] by auto
  obtain c3 where c3: "get_curl (solver_init b) ps (ps ! 0) 19 False = Inr c3" using curl [of 19] by auto
  obtain c4 where c4: "get_curl (solver_init b) ps (ps ! 0) 24 False = Inr c4" using curl [of 24] by auto
  have w: "getitem ps 0 = Inr (ps ! 0)" using len by (auto simp: getitem_def)
  have tips: "tip_indices (solver_init b) = [4, 9, 14, 19, 24]" by (simp add: solver_init_def)
  show ?thesis
    using False assms(1) ps(1) w c0 c1 c2 c3 c4
    by (simp add: solver_call_def lookup_def tips getitem_def setitem_def np_zeros_def)
qed

lemma get_curl_dist:
  assumes "tip_distance positions wrist_pos tip_idx = Inr dst"
    and "lookup (open_thresholds s) (thresholds_key is_thumb) = Inr t_open"
    and "lookup (close_thresholds s) (thresholds_key is_thumb) = Inr t_close"
    and "t_open \<noteq> t_close"
  shows "get_curl s positions wrist_pos tip_idx is_thumb =
           Inr (np_clip ((dst - t_close) / (t_open - t_close) * (11 / 10)) 0 1)"
  using assms
  by (auto simp: tip_distance_def get_curl_def bind_err_eq_Inr Let_def)

lemma get_curl_mono_thresholds:
  assumes "tip_distance positions1 wrist_pos1 tip_idx1 = Inr dst1"
    and "tip_distance positions2 wrist_pos2 tip_idx2 = Inr dst2"
    and "lookup (open_thresholds s) (thresholds_key is_thumb) = Inr t_open"
    and "lookup (close_thresholds s) (thresholds_key is_thumb) = Inr t_close"
    and "t_close < t_open" and "dst1 \<le> dst2"
  shows "\<exists>c1 c2. get_curl s positions1 wrist_pos1 tip_idx1 is_thumb = Inr c1 \<and>
           get_curl s positions2 wrist_pos2 tip_idx2 is_thumb = Inr c2 \<and> c1 \<le> c2"
proof -
  have ne: "t_open \<noteq> t_close" using assms(5) by simp
  have "(dst1 - t_close) / (t_open - t_close) \<le> (dst2 - t_close) / (t_open - t_close)"
    using assms(5,6) by (simp add: divide_le_cancel)
  then have "(dst1 - t_close) / (t_open - t_close) * (11 / 10)
               \<le> (dst2 - t_close) / (t_open - t_close) * (11 / 10)"
    by (rule mult_right_mono) simp
  then have "np_clip ((dst1 - t_close) / (t_open - t_close) * (11 / 10)) 0 1
               \<le> np_clip ((dst2 - t_close) / (t_open - t_close) * (11 / 10)) 0 1"
    by (rule np_clip_mono)
  then show ?thesis
    using get_curl_dist [OF assms(1) assms(3) assms(4) ne]
      get_curl_dist [OF assms(2) assms(3) assms(4) ne] by simp
qed

lemma allclose_zeros_tensor: "allclose zeros_tensor 0"
  by (simp add: allclose_def allclose_vec_def isclose_def zeros_tensor_def np_zeros_def
      list_all_iff np_atol_def)

lemma has_shape44_zeros_tensor: "has_shape44 zeros_tensor \<and> length zeros_tensor = 25"
  by (simp add: has_shape44_def zeros_tensor_def np_zeros_def list_all_iff)

lemma has_shape44_sample_tensor: "has_shape44 sample_tensor \<and> length sample_tensor = 25"
  by (simp add: has_shape44_def sample_tensor_def pose_at_def list_all_iff)

lemma not_allclose_sample_tensor: "\<not> allclose sample_tensor 0"
  by (simp add: allclose_def allclose_vec_def isclose_def sample_tensor_def pose_at_def np_atol_def)

lemma sqrt_4_625: "sqrt (4 / 625) = 2 / 25"
  by (rule real_sqrt_unique) (simp_all add: power2_eq_square)

lemma positions_of_sample_tensor:
  "positions_of sample_tensor = Inr ([0, 0, 0] # replicate 24 [2 / 25, 0, 0])"
  by (simp add: sample_tensor_def pose_at_def replicate_numeral_Cons getitem_def)

lemma tip_distance_sample:
  "tip_distance ([0, 0, 0] # replicate 24 [2 / 25, 0, 0]) [0, 0, 0] 0 = Inr 0"
  "tip_distance ([0, 0, 0] # replicate 24 [2 / 25, 0, 0]) [0, 0, 0] 4 = Inr (2 / 25)"
  "tip_distance ([0, 0, 0] # replicate 24 [2 / 25, 0, 0]) [0, 0, 0] 9 = Inr (2 / 25)"
  "tip_distance ([0, 0, 0] # replicate 24 [2 / 25, 0, 0]) [0, 0, 0] 14 = Inr (2 / 25)"
  "tip_distance ([0, 0, 0] # replicate 24 [2 / 25, 0, 0]) [0, 0, 0] 19 = Inr (2 / 25)"
  "tip_distance ([0, 0, 0] # replicate 24 [2 / 25, 0, 0]) [0, 0, 0] 24 = Inr (2 / 25)"
  by (simp_all add: tip_distance_def getitem_def vec_sub_def np_norm_def replicate_numeral_Cons
      sqrt_4_625 power2_eq_square)

lemma get_curl_sample:
  "get_curl (solver_init b) ([0, 0, 0] # replicate 24 [2 / 25, 0, 0]) [0, 0, 0] 4 True = Inr (33 / 40)"
  "get_curl (solver_init b) ([0, 0, 0] # replicate 24 [2 / 25, 0, 0]) [0, 0, 0] 9 False = Inr (11 / 20)"
  "get_curl (solver_init b) ([0, 0, 0] # replicate 24 [2 / 25, 0, 0]) [0, 0, 0] 14 False = Inr (11 / 20)"
  "get_curl (solver_init b) ([0, 0, 0] # replicate 24 [2 / 25, 0, 0]) [0, 0, 0] 19 False = Inr (11 / 20)"
  "get_curl (solver_init b) ([0, 0, 0] # replicate 24 [2 / 25, 0, 0]) [0, 0, 0] 24 False = Inr (11 / 20)"
  "get_curl (solver_init b) ([0, 0, 0] # replicate 24 [2 / 25, 0, 0]) [0, 0, 0] 0 False = Inr 0"
  by (simp_all add: get_curl_dist [OF tip_distance_sample(2) solver_init_lookups(1,3)]
      get_curl_dist [OF tip_distance_sample(3) solver_init_lookups(2,4)]
      get_curl_dist [OF tip_distance_sample(4) solver_init_lookups(2,4)]
      get_curl_dist [OF tip_distance_sample(5) solver_init_lookups(2,4)]
      get_curl_dist [OF tip_distance_sample(6) solver_init_lookups(2,4)]
      get_curl_dist [OF tip_distance_sample(1) solver_init_lookups(2,4)] np_clip_def)

lemma np_zeros_7: "np_zeros 7 = [0, 0, 0, 0, 0, 0, 0]"
  by (simp add: np_zeros_def replicate_numeral_Cons)

lemma solver_call_sample:
  "solver_call (solver_init b) [''position'' \<mapsto> sample_tensor] =
     Inr [11 / 20, 11 / 20, 11 / 20, 11 / 20, 33 / 40, 1, 0]"
  by (simp add: solver_call_def lookup_def not_allclose_sample_tensor positions_of_sample_tensor
      getitem_def setitem_def solver_init_def [of b, THEN arg_cong, of tip_indices]
      get_curl_sample np_zeros_7)

text \<open>
  C2: when the fingertip tensor is numerically all-zero (\<open>np.allclose\<close> against 0), the
  solver returns a command of seven channels whose first five are 1.0, whatever the
  thresholds of the solver are.
\<close>

theorem solver_call_all_zero_opens:
  assumes "finger_data ''position'' = Some fingertips" and "allclose fingertips 0"
  shows "\<exists>q. solver_call s finger_data = Inr q \<and> length q = 7 \<and> (\<forall>i<5. q ! i = 1)"
proof -
  have "\<forall>i<5. [1, 1, 1, 1, 1, 1, 0::real] ! i = 1"
    by (auto simp: nth_Cons' )
  then show ?thesis using solver_call_zero_branch [where s = s and finger_data = finger_data, OF assms] by simp
qed

theorem solver_call_all_zero_opens_witness:
  "[''position'' \<mapsto> zeros_tensor] ''position'' = Some zeros_tensor \<and> allclose zeros_tensor 0 \<and>
   (\<exists>q. solver_call (solver_init True) [''position'' \<mapsto> zeros_tensor] = Inr q \<and> length q = 7 \<and>
      q ! 0 = 1 \<and> q ! 1 = 1 \<and> q ! 2 = 1 \<and> q ! 3 = 1 \<and> q ! 4 = 1)"
proof -
  have h: "[''position'' \<mapsto> zeros_tensor] ''position'' = Some zeros_tensor" by simp
  from solver_call_all_zero_opens [where finger_data = "[''position'' \<mapsto> zeros_tensor]"
      and s = "solver_init True", OF h allclose_zeros_tensor]
  obtain q where q: "solver_call (solver_init True) [''position'' \<mapsto> zeros_tensor] = Inr q"
      "length q = 7" and a: "\<forall>i<5. q ! i = 1"
    by blast
  have "q ! 0 = 1" "q ! 1 = 1" "q ! 2 = 1" "q ! 3 = 1" "q ! 4 = 1"
    using a by simp_all
  then show ?thesis using h allclose_zeros_tensor q by blast
qed

lemma solver_call_unit_interval_real:
  assumes "finger_data ''position'' = Some fingertips" and "has_shape44 fingertips"
    and "25 \<le> length fingertips"
  shows "\<exists>q. solver_call (solver_init is_left) finger_data = Inr q \<and> length q = 7 \<and>
           (\<forall>x\<in>set q. 0 \<le> x \<and> x \<le> 1)"
proof -
  obtain q where q: "solver_call (solver_init is_left) finger_data = Inr q"
    using solver_call_init_total [where finger_data = finger_data, OF assms] by blast
  from solver_call_shape [OF q] have "length q = 7 \<and> (\<forall>x\<in>set q. 0 \<le> x \<and> x \<le> 1)"
    by auto
  then show ?thesis using q by blast
qed

lemma bind_err_assoc:
  "bind_err (bind_err m f) g = bind_err m (\<lambda>x. bind_err (f x) g)"
  by (cases m) simp_all

lemma getitem_map: "getitem (map f xs) i = bind_err (getitem xs i) (\<lambda>x. Inr (f x))"
  by (simp add: getitem_def)

lemma column3_map: "column3 (map (map f) rs) = bind_err (column3 rs) (\<lambda>xs. Inr (map f xs))"
proof (induction rs)
  case Nil
  show ?case by simp
next
  case (Cons r rs)
  show ?case
    by (cases "column3 rs") (simp_all add: Cons.IH getitem_def)
qed

lemma positions_of_map:
  "positions_of (map (map (map f)) t) = bind_err (positions_of t) (\<lambda>ps. Inr (map (map f) ps))"
proof (induction t)
  case Nil
  show ?case by simp
next
  case (Cons m t)
  show ?case
  proof (cases "column3 (take 3 m)")
    case (Inl e)
    then show ?thesis by (simp add: take_map column3_map)
  next
    case (Inr p)
    then show ?thesis
      by (cases "positions_of t") (simp_all add: take_map column3_map Cons.IH)
  qed
qed

lemma positions_of_lift:
  "positions_of (lift_tensor t) = bind_err (positions_of t) (\<lambda>ps. Inr (map (map Num) ps))"
  by (simp add: lift_tensor_def positions_of_map)

lemma nf_allclose_lift: "nf_allclose (lift_tensor t) b = allclose t b"
  by (simp add: nf_allclose_def allclose_def allclose_vec_def lift_tensor_def list_all_iff
      nf_isclose_def)

lemma nf_norm_map_Num: "nf_norm (map Num v) = Num (np_norm v)"
proof -
  have "those (map num_of (map Num v)) = Some v"
    by (induction v) (simp_all add: num_of_def)
  then show ?thesis by (simp add: nf_norm_def)
qed

lemma nf_vec_sub_map_Num:
  "nf_vec_sub (map Num a) (map Num b) = bind_err (vec_sub a b) (\<lambda>d. Inr (map Num d))"
proof -
  have "map2 (nf_op2 (\<lambda>x y. x - y)) (map Num a) (map Num b) = map Num (map2 (\<lambda>x y. x - y) a b)"
    by (induction a b rule: list_induct2') (simp_all add: nf_op2_def)
  then show ?thesis by (simp add: nf_vec_sub_def vec_sub_def)
qed

lemma nf_get_curl_lift:
  "nf_get_curl s (map (map Num) ps) (map Num w) i th =
     bind_err (get_curl s ps w i th) (\<lambda>c. Inr (Num c))"
proof (cases "getitem ps i")
  case (Inl e)
  then show ?thesis by (simp add: nf_get_curl_def get_curl_def getitem_map)
next
  case tip: (Inr tip_pos)
  show ?thesis
  proof (cases "vec_sub tip_pos w")
    case (Inl e)
    then show ?thesis
      using tip by (simp add: nf_get_curl_def get_curl_def getitem_map nf_vec_sub_map_Num)
  next
    case (Inr d)
    then show ?thesis
      using tip
      by (simp add: nf_get_curl_def get_curl_def getitem_map nf_vec_sub_map_Num nf_norm_map_Num
          Let_def nf_op2_def nf_clip_def bind_err_def split: sum.splits)
  qed
qed

lemma nf_solver_call_lift:
  assumes "nf_data ''position'' = Some (lift_tensor t)" and "finger_data ''position'' = Some t"
  shows "nf_solver_call s nf_data = bind_err (solver_call s finger_data) (\<lambda>q. Inr (map Num q))"
proof (cases "allclose t 0")
  case True
  then show ?thesis
    using assms
    by (simp add: nf_solver_call_def solver_call_def Let_def lookup_def nf_allclose_lift fill_prefix_def
        np_zeros_def replicate_numeral_Cons)
next
  case False
  show ?thesis
  proof (cases "positions_of t")
    case (Inl e)
    then show ?thesis
      using assms False
      by (simp add: nf_solver_call_def solver_call_def Let_def lookup_def nf_allclose_lift
          positions_of_lift)
  next
    case ps: (Inr ps)
    show ?thesis
    proof (cases "getitem ps 0")
      case (Inl e)
      then show ?thesis
        using assms False ps
        by (simp add: nf_solver_call_def solver_call_def Let_def lookup_def nf_allclose_lift
            positions_of_lift getitem_map)
    next
      case (Inr w)
      then show ?thesis
        using assms False ps
        by (simp add: nf_solver_call_def solver_call_def Let_def lookup_def nf_allclose_lift
            positions_of_lift getitem_map nf_get_curl_lift bind_err_assoc
            setitem_def np_zeros_7)
    qed
  qed
qed

lemma nan_free_lift:
  assumes "nan_free t"
  shows "\<exists>t'. t = lift_tensor t'"
proof -
  have elt: "Num (the (num_of x)) = x" if "x \<noteq> NaN" for x
    using that by (cases x) (simp_all add: num_of_def)
  have "map (map (map (\<lambda>x. Num (the (num_of x))))) t = t"
    using assms elt
    by (intro map_idI) (auto simp: nan_free_def list_all_iff)
  then have "t = lift_tensor (map (map (map (\<lambda>x. the (num_of x)))) t)"
    by (simp add: lift_tensor_def comp_def)
  then show ?thesis by blast
qed

lemma has_shape44_lift: "has_shape44 (lift_tensor t) = has_shape44 t"
  by (simp add: has_shape44_def lift_tensor_def list_all_iff)

lemma nan_free_lift_tensor: "nan_free (lift_tensor t)"
  by (simp add: nan_free_def lift_tensor_def list_all_iff)

lemma has_shape44_nan_tensor: "has_shape44 nan_tensor \<and> length nan_tensor = 25"
  by (simp add: has_shape44_def nan_tensor_def lift_tensor_def sample_tensor_def pose_at_def
      list_all_iff replicate_numeral_Cons)

lemma not_nf_allclose_nan_tensor: "\<not> nf_allclose nan_tensor 0"
  by (simp add: nf_allclose_def nan_tensor_def lift_tensor_def sample_tensor_def pose_at_def
      nf_isclose_def isclose_def np_atol_def)

lemma positions_of_nan_tensor:
  "positions_of nan_tensor =
     Inr ([Num 0, Num 0, Num 0] # replicate 8 [Num (2 / 25), Num 0, Num 0] @
          [NaN, Num 0, Num 0] # replicate 15 [Num (2 / 25), Num 0, Num 0])"
  by (simp add: nan_tensor_def lift_tensor_def sample_tensor_def pose_at_def
      replicate_numeral_Cons getitem_def)

lemma nf_get_curl_nan_tensor:
  "nf_get_curl (solver_init b) ([Num 0, Num 0, Num 0] # replicate 8 [Num (2 / 25), Num 0, Num 0] @
          [NaN, Num 0, Num 0] # replicate 15 [Num (2 / 25), Num 0, Num 0]) [Num 0, Num 0, Num 0] 4 True
     = Inr (Num (33 / 40))"
  "nf_get_curl (solver_init b) ([Num 0, Num 0, Num 0] # replicate 8 [Num (2 / 25), Num 0, Num 0] @
          [NaN, Num 0, Num 0] # replicate 15 [Num (2 / 25), Num 0, Num 0]) [Num 0, Num 0, Num 0] 9 False
     = Inr NaN"
  "nf_get_curl (solver_init b) ([Num 0, Num 0, Num 0] # replicate 8 [Num (2 / 25), Num 0, Num 0] @
          [NaN, Num 0, Num 0] # replicate 15 [Num (2 / 25), Num 0, Num 0]) [Num 0, Num 0, Num 0] 14 False
     = Inr (Num (11 / 20))"
  "nf_get_curl (solver_init b) ([Num 0, Num 0, Num 0] # replicate 8 [Num (2 / 25), Num 0, Num 0] @
          [NaN, Num 0, Num 0] # replicate 15 [Num (2 / 25), Num 0, Num 0]) [Num 0, Num 0, Num 0] 19 False
     = Inr (Num (11 / 20))"
  "nf_get_curl (solver_init b) ([Num 0, Num 0, Num 0] # replicate 8 [Num (2 / 25), Num 0, Num 0] @
          [NaN, Num 0, Num 0] # replicate 15 [Num (2 / 25), Num 0, Num 0]) [Num 0, Num 0, Num 0] 24 False
     = Inr (Num (11 / 20))"
  by (simp_all add: nf_get_curl_def getitem_def nf_vec_sub_def nf_norm_def num_of_def nf_op2_def
      nf_clip_def np_clip_def np_norm_def solver_init_lookups replicate_numeral_Cons
      sqrt_4_625 power2_eq_square)

text \<open>
  C3, as claimed: for every input fingertip tensor, every channel of the command lies in
  the closed interval from 0 to 1. This fails on a tensor with a NaN entry: with NaN in
  the x coordinate of joint 9, \<open>np.allclose\<close> is false, the distance of the index
  fingertip is NaN, \<open>np.clip\<close> passes it through and channel 3 of the command is NaN,
  which is not in the interval.
\<close>

theorem nf_solver_call_nan_counterexample:
  "[''position'' \<mapsto> nan_tensor] ''position'' = Some nan_tensor \<and> has_shape44 nan_tensor \<and>
   length nan_tensor = 25 \<and>
   nf_solver_call (solver_init True) [''position'' \<mapsto> nan_tensor] =
     Inr [Num (11 / 20), Num (11 / 20), Num (11 / 20), NaN, Num (33 / 40), Num 1, Num 0] \<and>
   \<not> in_unit_interval
       ([Num (11 / 20), Num (11 / 20), Num (11 / 20), NaN, Num (33 / 40), Num 1, Num 0] ! 3)"
proof (intro conjI)
  show "[''position'' \<mapsto> nan_tensor] ''position'' = Some nan_tensor" by simp
  show "has_shape44 nan_tensor" and "length nan_tensor = 25"
    using has_shape44_nan_tensor by simp_all
  show "nf_solver_call (solver_init True) [''position'' \<mapsto> nan_tensor] =
     Inr [Num (11 / 20), Num (11 / 20), Num (11 / 20), NaN, Num (33 / 40), Num 1, Num 0]"
    by (simp add: nf_solver_call_def Let_def lookup_def not_nf_allclose_nan_tensor
        positions_of_nan_tensor getitem_def setitem_def
        solver_init_def [of True, THEN arg_cong, of tip_indices]
        nf_get_curl_nan_tensor np_zeros_7)
  show "\<not> in_unit_interval
       ([Num (11 / 20), Num (11 / 20), Num (11 / 20), NaN, Num (33 / 40), Num 1, Num 0] ! 3)"
    by (simp add: in_unit_interval_def)
qed

text \<open>
  C3, amended: for every fingertip tensor without NaN entries (an array of at least 25
  matrices of shape 4 x 4 of finite numbers), the solver returns a command of seven
  channels and each channel is a number in the closed interval from 0 to 1.
\<close>

theorem nf_solver_call_channels_in_unit_interval:
  assumes "finger_data ''position'' = Some fingertips" and "has_shape44 fingertips"
    and "25 \<le> length fingertips" and "nan_free fingertips"
  shows "\<exists>q. nf_solver_call (solver_init is_left) finger_data = Inr q \<and> length q = 7 \<and>
           (\<forall>x\<in>set q. in_unit_interval x)"
proof -
  obtain t where t: "fingertips = lift_tensor t"
    using nan_free_lift [OF assms(4)] by blast
  have s: "has_shape44 t" and l: "25 \<le> length t"
    using assms(2,3) t by (simp_all add: has_shape44_lift) (simp add: lift_tensor_def)
  have p: "[''position'' \<mapsto> t] ''position'' = Some t" by simp
  obtain q where q: "solver_call (solver_init is_left) [''position'' \<mapsto> t] = Inr q"
      "length q = 7" "\<forall>x\<in>set q. 0 \<le> x \<and> x \<le> 1"
    using solver_call_unit_interval_real [where finger_data = "[''position'' \<mapsto> t]", OF p s l]
    by blast
  have "nf_solver_call (solver_init is_left) finger_data = Inr (map Num q)"
    using nf_solver_call_lift [where nf_data = finger_data and finger_data = "[''position'' \<mapsto> t]"
        and t = t and s = "solver_init is_left"] assms(1) t p q(1) by simp
  moreover have "\<forall>x\<in>set (map Num q). in_unit_interval x"
    using q(3) by (simp add: in_unit_interval_def)
  ultimately show ?thesis using q(2) by simp
qed

theorem nf_solver_call_channels_in_unit_interval_witness:
  "[''position'' \<mapsto> lift_tensor sample_tensor] ''position'' = Some (lift_tensor sample_tensor) \<and>
   has_shape44 (lift_tensor sample_tensor) \<and> 25 \<le> length (lift_tensor sample_tensor) \<and>
   nan_free (lift_tensor sample_tensor) \<and>
   nf_solver_call (solver_init True) [''position'' \<mapsto> lift_tensor sample_tensor] =
     Inr [Num (11 / 20), Num (11 / 20), Num (11 / 20), Num (11 / 20), Num (33 / 40), Num 1, Num 0] \<and>
   (\<exists>q. nf_solver_call (solver_init True) [''position'' \<mapsto> lift_tensor sample_tensor] = Inr q \<and>
      length q = 7 \<and> in_unit_interval (q ! 0) \<and> in_unit_interval (q ! 4) \<and>
      in_unit_interval (q ! 6))"
proof -
  let ?fd = "[''position'' \<mapsto> lift_tensor sample_tensor]"
  have h: "?fd ''position'' = Some (lift_tensor sample_tensor)" by simp
  have s: "has_shape44 (lift_tensor sample_tensor)"
    and l: "25 \<le> length (lift_tensor sample_tensor)"
    using has_shape44_sample_tensor by (simp_all add: has_shape44_lift) (simp add: lift_tensor_def)
  have n: "nan_free (lift_tensor sample_tensor)" by (rule nan_free_lift_tensor)
  have p: "[''position'' \<mapsto> sample_tensor] ''position'' = Some sample_tensor" by simp
  have v: "nf_solver_call (solver_init True) ?fd =
     Inr [Num (11 / 20), Num (11 / 20), Num (11 / 20), Num (11 / 20), Num (33 / 40), Num 1, Num 0]"
    using nf_solver_call_lift [where nf_data = ?fd and finger_data = "[''position'' \<mapsto> sample_tensor]"
        and t = sample_tensor and s = "solver_init True"] h p solver_call_sample [of True]
    by simp
  from nf_solver_call_channels_in_unit_interval [where finger_data = ?fd and is_left = True,
      OF h s l n]
  obtain q where q: "nf_solver_call (solver_init True) ?fd = Inr q" "length q = 7"
    and a: "\<forall>x\<in>set q. in_unit_interval x"
    by blast
  have "q ! 0 \<in> set q" "q ! 4 \<in> set q" "q ! 6 \<in> set q"
    using q(2) by simp_all
  then have "in_unit_interval (q ! 0) \<and> in_unit_interval (q ! 4) \<and> in_unit_interval (q ! 6)"
    using a by blast
  then show ?thesis using h s l n v q by blast
qed

text \<open>
  C4: for each digit (any tip index, thumb or finger thresholds), the curl that
  \<open>get_curl\<close> computes is monotonically non-decreasing in the distance between the
  fingertip and the wrist landmark: a distance at least as large gives a curl at least as
  large.
\<close>

theorem get_curl_monotone_in_distance:
  assumes "tip_distance positions1 wrist_pos1 tip_idx = Inr dst1"
    and "tip_distance positions2 wrist_pos2 tip_idx = Inr dst2"
    and "dst1 \<le> dst2"
  shows "\<exists>c1 c2. get_curl (solver_init is_left) positions1 wrist_pos1 tip_idx is_thumb = Inr c1 \<and>
           get_curl (solver_init is_left) positions2 wrist_pos2 tip_idx is_thumb = Inr c2 \<and> c1 \<le> c2"
proof (cases is_thumb)
  case True
  have "\<exists>c1 c2. get_curl (solver_init is_left) positions1 wrist_pos1 tip_idx True = Inr c1 \<and>
           get_curl (solver_init is_left) positions2 wrist_pos2 tip_idx True = Inr c2 \<and> c1 \<le> c2"
    by (rule get_curl_mono_thresholds [OF assms(1,2) solver_init_lookups(1,3) _ assms(3)]) simp
  then show ?thesis using True by simp
next
  case False
  have "\<exists>c1 c2. get_curl (solver_init is_left) positions1 wrist_pos1 tip_idx False = Inr c1 \<and>
           get_curl (solver_init is_left) positions2 wrist_pos2 tip_idx False = Inr c2 \<and> c1 \<le> c2"
    by (rule get_curl_mono_thresholds [OF assms(1,2) solver_init_lookups(2,4) _ assms(3)]) simp
  then show ?thesis using False by simp
qed

theorem get_curl_monotone_in_distance_witness:
  "tip_distance ([0, 0, 0] # replicate 24 [2 / 25, 0, 0]) [2 / 25, 0, 0] 4 = Inr 0 \<and>
   tip_distance ([0, 0, 0] # replicate 24 [2 / 25, 0, 0]) [0, 0, 0] 4 = Inr (2 / 25) \<and>
   (0::real) \<le> 2 / 25 \<and>
   get_curl (solver_init True) ([0, 0, 0] # replicate 24 [2 / 25, 0, 0]) [0, 0, 0] 4 True = Inr (33 / 40) \<and>
   (\<exists>c1 c2. get_curl (solver_init True) ([0, 0, 0] # replicate 24 [2 / 25, 0, 0]) [2 / 25, 0, 0] 4 True = Inr c1 \<and>
      get_curl (solver_init True) ([0, 0, 0] # replicate 24 [2 / 25, 0, 0]) [0, 0, 0] 4 True = Inr c2 \<and>
      c1 \<le> c2)"
proof -
  have d1: "tip_distance ([0, 0, 0] # replicate 24 [2 / 25, 0, 0]) [2 / 25, 0, 0] 4 = Inr 0"
    by (simp add: tip_distance_def getitem_def vec_sub_def np_norm_def replicate_numeral_Cons)
  have le: "(0::real) \<le> 2 / 25" by simp
  note t = get_curl_monotone_in_distance [OF d1 tip_distance_sample(2) le, of True True]
  show ?thesis using d1 le tip_distance_sample(2) get_curl_sample(1) [of True] t by simp
qed

text \<open>
  C10: for every fingertip tensor, all-zero or not, channel 5 (thumb rotation) of the
  solver's command is 1.0 and channel 6 is 0.0.
\<close>

theorem solver_call_aux_channels:
  assumes "finger_data ''position'' = Some fingertips" and "has_shape44 fingertips"
    and "25 \<le> length fingertips"
  shows "\<exists>q. solver_call (solver_init is_left) finger_data = Inr q \<and> q ! 5 = 1 \<and> q ! 6 = 0"
proof -
  obtain q where q: "solver_call (solver_init is_left) finger_data = Inr q"
    using solver_call_init_total [where finger_data = finger_data, OF assms] by blast
  from solver_call_shape [OF q] have "q ! 5 = 1 \<and> q ! 6 = 0"
    by auto
  then show ?thesis using q by blast
qed

theorem solver_call_aux_channels_witness:
  "[''position'' \<mapsto> sample_tensor] ''position'' = Some sample_tensor \<and> has_shape44 sample_tensor \<and>
   25 \<le> length sample_tensor \<and>
   (\<exists>q. solver_call (solver_init False) [''position'' \<mapsto> sample_tensor] = Inr q \<and>
      q ! 5 = 1 \<and> q ! 6 = 0) \<and>
   [''position'' \<mapsto> zeros_tensor] ''position'' = Some zeros_tensor \<and> has_shape44 zeros_tensor \<and>
   25 \<le> length zeros_tensor \<and>
   (\<exists>q. solver_call (solver_init False) [''position'' \<mapsto> zeros_tensor] = Inr q \<and>
      q ! 5 = 1 \<and> q ! 6 = 0)"
proof -
  have h: "[''position'' \<mapsto> sample_tensor] ''position'' = Some sample_tensor" by simp
  have s: "has_shape44 sample_tensor" and l: "25 \<le> length sample_tensor"
    using has_shape44_sample_tensor by simp_all
  have hz: "[''position'' \<mapsto> zeros_tensor] ''position'' = Some zeros_tensor" by simp
  have sz: "has_shape44 zeros_tensor" and lz: "25 \<le> length zeros_tensor"
    using has_shape44_zeros_tensor by simp_all
  note a = solver_call_aux_channels [where finger_data = "[''position'' \<mapsto> sample_tensor]"
      and is_left = False, OF h s l]
  note b = solver_call_aux_channels [where finger_data = "[''position'' \<mapsto> zeros_tensor]"
      and is_left = False, OF hz sz lz]
  show ?thesis using h s l hz sz lz a b by blast
qed

section \<open>Properties of the hand tracking client\<close>

lemma request_data_failed:
  assumes "socket c \<noteq> None" and "exchange_failed ex"
  shows "request_data c ex = Inr None"
  using assms
  by (cases ex; simp add: request_data_def exchange_failed_def handle_raised_def split: raised.splits)

lemma fingers_position_make_output:
  "fingers_position (make_output l r) ''left_fingers'' = Inr l"
  "fingers_position (make_output l r) ''right_fingers'' = Inr r"
  by (simp_all add: fingers_position_def make_output_def lookup_def)

text \<open>
  C5: on a started client, whenever the exchange fails (a receive timeout, or any other
  \<open>Exception\<close> raised while sending, receiving or unpickling), \<open>get\<close> raises nothing and
  returns an output whose left-hand and right-hand fingertip tensors are both the all-zero
  tensor of shape 25 x 4 x 4.
\<close>

theorem streamer_get_failure_gives_zeros:
  assumes "socket c \<noteq> None" and "exchange_failed ex"
  shows "\<exists>out. streamer_get R c ex = Inr out \<and>
           fingers_position out ''left_fingers'' = Inr (replicate 25 (replicate 4 (replicate 4 0))) \<and>
           fingers_position out ''right_fingers'' = Inr (replicate 25 (replicate 4 (replicate 4 0)))"
proof -
  have "streamer_get R c ex = Inr (make_output zeros_tensor zeros_tensor)"
    using request_data_failed [OF assms] by (simp add: streamer_get_def)
  then show ?thesis
    by (simp add: fingers_position_make_output zeros_tensor_def np_zeros_def)
qed

theorem streamer_get_failure_gives_zeros_witness:
  "socket started_client \<noteq> None \<and> exchange_failed (RecvRaises Again) \<and>
   exchange_failed (LoadsRaises OtherException) \<and>
   (\<exists>out. streamer_get identity_rotation started_client (RecvRaises Again) = Inr out \<and>
      fingers_position out ''left_fingers'' = Inr (replicate 25 (replicate 4 (replicate 4 0))) \<and>
      fingers_position out ''right_fingers'' = Inr (replicate 25 (replicate 4 (replicate 4 0)))) \<and>
   (\<exists>out. streamer_get identity_rotation started_client (LoadsRaises OtherException) = Inr out \<and>
      fingers_position out ''left_fingers'' = Inr (replicate 25 (replicate 4 (replicate 4 0))) \<and>
      fingers_position out ''right_fingers'' = Inr (replicate 25 (replicate 4 (replicate 4 0))))"
proof -
  have s: "socket started_client \<noteq> None" by (simp add: started_client_def)
  have f1: "exchange_failed (RecvRaises Again)" and f2: "exchange_failed (LoadsRaises OtherException)"
    by (simp_all add: exchange_failed_def)
  show ?thesis
    using s f1 f2 streamer_get_failure_gives_zeros [OF s f1, of identity_rotation]
      streamer_get_failure_gives_zeros [OF s f2, of identity_rotation] by blast
qed

text \<open>
  C8: when the hand-joint input is \<open>None\<close> or has fewer than 25 joints,
  \<open>_generate_finger_data\<close> returns exactly the all-zero tensor of shape 25 x 4 x 4.
\<close>

theorem generate_finger_data_few_joints:
  assumes "hand_joints = None \<or> (\<exists>joints. hand_joints = Some joints \<and> length joints < 25)"
  shows "generate_finger_data R hand_joints headset_pose hand_side =
           Inr (replicate 25 (replicate 4 (replicate 4 0)))"
  using assms
  by (auto simp: generate_finger_data_def zeros_tensor_def np_zeros_def)

theorem generate_finger_data_few_joints_witness:
  "generate_finger_data identity_rotation None (Some [0, 0, 0, 0, 0, 0, 1]) ''left'' =
     Inr (replicate 25 (replicate 4 (replicate 4 0))) \<and>
   length [[1, 2, 3, 0, 0, 0, 1 :: real]] < 25 \<and>
   generate_finger_data identity_rotation (Some [[1, 2, 3, 0, 0, 0, 1]]) None ''right'' =
     Inr (replicate 25 (replicate 4 (replicate 4 0)))"
proof -
  have a: "(None :: real list list option) = None \<or>
      (\<exists>joints. (None :: real list list option) = Some joints \<and> length joints < 25)"
    by simp
  have l: "length [[1, 2, 3, 0, 0, 0, 1 :: real]] < 25" by simp
  then have b: "Some [[1, 2, 3, 0, 0, 0, 1 :: real]] = None \<or>
      (\<exists>joints. Some [[1, 2, 3, 0, 0, 0, 1 :: real]] = Some joints \<and> length joints < 25)"
    by simp
  show ?thesis
    using l generate_finger_data_few_joints [OF a, of identity_rotation "Some [0, 0, 0, 0, 0, 0, 1]" "''left''"]
      generate_finger_data_few_joints [OF b, of identity_rotation None "''right''"] by simp
qed

section \<open>Properties of the teleop loop\<close>

lemma round_even_err: "\<bar>of_int (round_even y) - y\<bar> \<le> 1 / 2"
proof -
  have "of_int \<lfloor>y\<rfloor> \<le> y" "y < of_int \<lfloor>y\<rfloor> + 1" by linarith+
  then show ?thesis
    by (auto simp: round_even_def Let_def abs_le_iff)
qed

lemma double_exponent_powi:
  assumes "x \<noteq> 0"
  shows "2 powi double_exponent x \<le> \<bar>x\<bar>"
proof -
  have "2 powr real_of_int \<lfloor>log 2 \<bar>x\<bar>\<rfloor> \<le> 2 powr log 2 \<bar>x\<bar>"
    by (intro powr_mono) simp_all
  also have "\<dots> = \<bar>x\<bar>" using assms by simp
  finally show ?thesis
    by (simp add: double_exponent_def powr_real_of_int')
qed

lemma double_exponent_eq:
  assumes "2 powi e \<le> \<bar>x\<bar>" and "\<bar>x\<bar> < 2 powi (e + 1)"
  shows "double_exponent x = e"
proof -
  have pos: "0 < \<bar>x\<bar>" using assms(1) by (smt (verit) zero_less_power_int)
  have "2 powr real_of_int e \<le> \<bar>x\<bar>" "\<bar>x\<bar> < 2 powr (real_of_int e + 1)"
    using assms powr_real_of_int' [of 2 e] powr_real_of_int' [of 2 "e + 1"] by simp_all
  then show ?thesis
    unfolding double_exponent_def using floor_log_eq_powr_iff [of "\<bar>x\<bar>" 2 e] pos by simp
qed

lemma fl_error: "\<bar>fl x - x\<bar> \<le> \<bar>x\<bar> / 2 ^ 53"
proof (cases "x = 0")
  case True
  then show ?thesis by (simp add: fl_def)
next
  case False
  define u :: real where "u = 2 powi (double_exponent x - 52)"
  have upos: "0 < u" by (simp add: u_def)
  have "u = 2 powi double_exponent x / 2 ^ 52"
    by (simp add: u_def power_int_diff)
  then have ule: "u \<le> \<bar>x\<bar> / 2 ^ 52"
    using double_exponent_powi [OF False] by (simp add: divide_right_mono)
  have "fl x - x = (of_int (round_even (x / u)) - x / u) * u"
    using False upos by (simp add: fl_def Let_def u_def [symmetric] algebra_simps)
  then have "\<bar>fl x - x\<bar> = \<bar>of_int (round_even (x / u)) - x / u\<bar> * u"
    using upos by (simp add: abs_mult)
  also have "\<dots> \<le> 1 / 2 * u"
    using round_even_err [of "x / u"] upos by (intro mult_right_mono) simp_all
  also have "\<dots> \<le> 1 / 2 * (\<bar>x\<bar> / 2 ^ 52)"
    using ule by simp
  finally show ?thesis by simp
qed

lemma fl_eval:
  assumes "2 powi e \<le> \<bar>x\<bar>" and "\<bar>x\<bar> < 2 powi (e + 1)"
  shows "fl x = of_int (round_even (x / 2 powi (e - 52))) * 2 powi (e - 52)"
proof -
  have "x \<noteq> 0" using assms(1) by (smt (verit) zero_less_power_int)
  then show ?thesis using double_exponent_eq [OF assms] by (simp add: fl_def Let_def)
qed

lemma fl_1_20: "fl (1 / 20) = 3602879701896397 / 2 ^ 56"
proof -
  have "fl (1 / 20) = of_int (round_even (1 / 20 / 2 powi (- 5 - 52))) * 2 powi (- 5 - 52)"
    by (rule fl_eval) (simp_all add: power_int_minus field_simps)
  also have "\<dots> = 3602879701896397 / 2 ^ 56"
    by (simp add: power_int_minus round_even_def Let_def field_simps)
  finally show ?thesis .
qed

lemma fl_15_05: "fl (15 + 3602879701896397 / 2 ^ 56) = 15 + 14073748835533 / 2 ^ 48"
proof -
  have "fl (15 + 3602879701896397 / 2 ^ 56) =
      of_int (round_even ((15 + 3602879701896397 / 2 ^ 56) / 2 powi (3 - 52))) * 2 powi (3 - 52)"
    by (rule fl_eval) (simp_all add: power_int_minus field_simps)
  also have "\<dots> = 15 + 14073748835533 / 2 ^ 48"
    by (simp add: power_int_minus round_even_def Let_def field_simps)
  finally show ?thesis .
qed

lemma fl_13: "fl 13 = 13"
proof -
  have "fl 13 = of_int (round_even (13 / 2 powi (3 - 52))) * 2 powi (3 - 52)"
    by (rule fl_eval) (simp_all add: power_int_minus field_simps)
  also have "\<dots> = 13"
    by (simp add: power_int_minus round_even_def Let_def field_simps)
  finally show ?thesis .
qed

lemma float_entry_stamped:
  "float_entry (data(''timestamp'' \<mapsto> Float t, ''target_time'' \<mapsto> Float tt)) ''timestamp'' = Inr t"
  "float_entry (data(''timestamp'' \<mapsto> Float t, ''target_time'' \<mapsto> Float tt)) ''target_time'' = Inr tt"
  by (simp_all add: float_entry_def)

lemma loop_inv_init: "loop_inv config [] loop_init"
  by (simp add: loop_inv_def loop_init_def)

lemma loop_inv_publish:
  assumes "loop_inv config past st"
    and "tt = fadd (t_now inp) (cycle_duration config (iteration st))"
    and "published st' =
           published st @ [(policy_action inp)(''timestamp'' \<mapsto> Float (t_now inp), ''target_time'' \<mapsto> Float tt)]"
    and "iteration st' = iteration st + 1"
  shows "loop_inv config (past @ [inp]) st'"
proof -
  have it: "iteration st = length past" and len: "length (published st) = length past"
    using assms(1) by (simp_all add: loop_inv_def)
  have "float_entry (published st' ! k) ''timestamp'' = Inr (t_now ((past @ [inp]) ! k)) \<and>
        float_entry (published st' ! k) ''target_time'' =
          Inr (fadd (t_now ((past @ [inp]) ! k)) (cycle_duration config k))"
    if "k < length (past @ [inp])" for k
  proof (cases "k < length past")
    case True
    then show ?thesis using assms(1,3) len by (simp add: loop_inv_def nth_append)
  next
    case False
    then have k: "k = length past" using that by simp
    then show ?thesis using assms(2,3) it len by (simp add: nth_append float_entry_stamped)
  qed
  then show ?thesis using assms(3,4) it len by (simp add: loop_inv_def)
qed

lemma cycle_inv:
  assumes "loop_inv config past st"
  shows "(fst (cycle config st inp) = st \<and> snd (cycle config st inp) \<noteq> None) \<or>
         loop_inv config (past @ [inp]) (fst (cycle config st inp))"
proof (cases "iteration st = 0")
  case True
  let ?tt = "fadd (t_now inp) time_to_get_to_initial_pose"
  have p: "published (fst (cycle config st inp)) =
        published st @ [(policy_action inp)(''timestamp'' \<mapsto> Float (t_now inp), ''target_time'' \<mapsto> Float ?tt)]"
    and i: "iteration (fst (cycle config st inp)) = iteration st + 1"
    using True by (simp_all add: cycle_def Let_def split: sum.splits)
  have e: "?tt = fadd (t_now inp) (cycle_duration config (iteration st))"
    using True by (simp add: cycle_duration_def)
  show ?thesis using loop_inv_publish [OF assms e p i] by simp
next
  case False
  show ?thesis
  proof (cases "teleop_frequency config = 0")
    case True
    then show ?thesis using False by (simp add: cycle_def Let_def py_truediv_def)
  next
    case nz: False
    let ?tt = "fadd (t_now inp) (fl (1 / teleop_frequency config))"
    have p: "published (fst (cycle config st inp)) =
          published st @ [(policy_action inp)(''timestamp'' \<mapsto> Float (t_now inp), ''target_time'' \<mapsto> Float ?tt)]"
      and i: "iteration (fst (cycle config st inp)) = iteration st + 1"
      using False nz by (simp_all add: cycle_def Let_def py_truediv_def)
    have e: "?tt = fadd (t_now inp) (cycle_duration config (iteration st))"
      using False by (simp add: cycle_duration_def)
    show ?thesis using loop_inv_publish [OF assms e p i] by simp
  qed
qed

lemma run_loop_inv:
  assumes "loop_inv config past st"
  shows "\<exists>m\<le>length rest. loop_inv config (past @ take m rest) (fst (run_loop config st rest))"
  using assms
proof (induction rest arbitrary: st past)
  case Nil
  then show ?case by simp
next
  case (Cons inp rest)
  obtain st' e where c: "cycle config st inp = (st', e)" by (cases "cycle config st inp")
  from cycle_inv [OF Cons.prems, of inp] c
  consider (stop) "st' = st" "e \<noteq> None" | (pub) "loop_inv config (past @ [inp]) st'"
    by auto
  then show ?case
  proof cases
    case stop
    then have "fst (run_loop config st (inp # rest)) = st" using c by auto
    then have "loop_inv config (past @ take 0 (inp # rest)) (fst (run_loop config st (inp # rest)))"
      using Cons.prems by simp
    then show ?thesis by blast
  next
    case pub
    show ?thesis
    proof (cases e)
      case (Some err)
      then have "fst (run_loop config st (inp # rest)) = st'" using c by simp
      then have "loop_inv config (past @ take 1 (inp # rest)) (fst (run_loop config st (inp # rest)))"
        using pub by simp
      moreover have "1 \<le> length (inp # rest)" by simp
      ultimately show ?thesis by blast
    next
      case None
      then have r: "run_loop config st (inp # rest) = run_loop config st' rest" using c by simp
      obtain m where m: "m \<le> length rest"
        "loop_inv config ((past @ [inp]) @ take m rest) (fst (run_loop config st' rest))"
        using Cons.IH [OF pub] by blast
      have "loop_inv config (past @ take (Suc m) (inp # rest)) (fst (run_loop config st (inp # rest)))"
        using m(2) r by simp
      moreover have "Suc m \<le> length (inp # rest)" using m(1) by simp
      ultimately show ?thesis by blast
    qed
  qed
qed

lemma cycle_total:
  assumes "teleop_frequency config \<noteq> 0"
  shows "snd (cycle config st inp) = None \<and>
         length (published (fst (cycle config st inp))) = length (published st) + 1"
  using assms by (simp add: cycle_def Let_def py_truediv_def)

lemma run_loop_total:
  assumes "teleop_frequency config \<noteq> 0"
  shows "snd (run_loop config st inputs) = None \<and>
         length (published (fst (run_loop config st inputs))) = length (published st) + length inputs"
proof (induction inputs arbitrary: st)
  case Nil
  show ?case by simp
next
  case (Cons inp rest)
  obtain st' e where c: "cycle config st inp = (st', e)" by (cases "cycle config st inp")
  have "e = None" and "length (published st') = length (published st) + 1"
    using cycle_total [OF assms, of st inp] c by simp_all
  then show ?case using c Cons.IH [of st'] by simp
qed

lemma run_loop_published:
  assumes "k < length (published (fst (run_loop config loop_init inputs)))"
  shows "float_entry (published (fst (run_loop config loop_init inputs)) ! k) ''timestamp'' =
           Inr (t_now (inputs ! k)) \<and>
         float_entry (published (fst (run_loop config loop_init inputs)) ! k) ''target_time'' =
           Inr (fadd (t_now (inputs ! k)) (cycle_duration config k))"
proof -
  obtain m where m: "m \<le> length inputs"
    and inv: "loop_inv config ([] @ take m inputs) (fst (run_loop config loop_init inputs))"
    using run_loop_inv [OF loop_inv_init, of inputs config] by blast
  have len: "length (published (fst (run_loop config loop_init inputs))) = m"
    using inv m by (simp add: loop_inv_def)
  then have k: "k < m" using assms by simp
  then have "take m inputs ! k = inputs ! k" by simp
  then show ?thesis using inv k m by (simp add: loop_inv_def)
qed

lemma lead_time_entries:
  assumes "float_entry data ''timestamp'' = Inr ts" and "float_entry data ''target_time'' = Inr tt"
  shows "lead_time data = Inr (tt - ts)"
  using assms by (simp add: lead_time_def)

text \<open>
  C7, as claimed: in the published action \<open>target_time\<close> minus \<open>timestamp\<close> equals the
  warm-up duration on the first cycle and \<open>1 / teleop_frequency\<close> on every later cycle.
  This fails: \<open>target_time\<close> is a float sum, and the sum is rounded. At 20 Hz and a clock
  reading of 15.0 in the second cycle the difference is \<open>14073748835533 / 2^48\<close>
  (0.05000000000000071), neither \<open>1/20\<close> nor the double nearest to it.
\<close>

theorem run_loop_lead_time_counterexample:
  "lead_time (published (fst (run_loop config20 loop_init inputs3)) ! 1) =
     Inr (14073748835533 / 2 ^ 48) \<and>
   (14073748835533 / 2 ^ 48 :: real) \<noteq> 1 / teleop_frequency config20 \<and>
   fl (1 / teleop_frequency config20) = 3602879701896397 / 2 ^ 56 \<and>
   (14073748835533 / 2 ^ 48 :: real) \<noteq> 3602879701896397 / 2 ^ 56"
proof -
  have nz: "teleop_frequency config20 \<noteq> 0" by (simp add: config20_def)
  have "length (published (fst (run_loop config20 loop_init inputs3))) = 3"
    using run_loop_total [OF nz, of loop_init inputs3] by (simp add: loop_init_def inputs3_def)
  then have k: "1 < length (published (fst (run_loop config20 loop_init inputs3)))" by simp
  have "lead_time (published (fst (run_loop config20 loop_init inputs3)) ! 1) =
          Inr (fadd (t_now (inputs3 ! 1)) (cycle_duration config20 1) - t_now (inputs3 ! 1))"
    using run_loop_published [OF k] by (intro lead_time_entries) simp_all
  moreover have "fadd (t_now (inputs3 ! 1)) (cycle_duration config20 1) - t_now (inputs3 ! 1)
      = 14073748835533 / 2 ^ 48"
  proof -
    have i1: "t_now (inputs3 ! 1) = 15" by (simp add: inputs3_def)
    have d1: "cycle_duration config20 1 = 3602879701896397 / 2 ^ 56"
      by (simp add: cycle_duration_def config20_def fl_1_20)
    show ?thesis unfolding i1 d1 fadd_def fl_15_05 by simp
  qed
  moreover have "fl (1 / teleop_frequency config20) = 3602879701896397 / 2 ^ 56"
    by (simp add: config20_def fl_1_20)
  ultimately show ?thesis by (simp add: config20_def)
qed

text \<open>
  C7, amended: in every action the loop publishes, \<open>timestamp\<close> is the clock reading of
  the cycle and \<open>target_time\<close> is the float sum of that reading and the cycle's duration:
  the warm-up duration of 2.0 s in the first cycle, the float \<open>1 / teleop_frequency\<close> in
  every later cycle. So \<open>target_time\<close> minus \<open>timestamp\<close> equals that duration up to the
  rounding of the sum: it differs from it by at most \<open>2^-53\<close> times the magnitude of the
  exact sum. With a non-zero frequency the loop raises nothing and publishes one action
  per cycle.
\<close>

theorem run_loop_lead_times_rounded:
  "(\<forall>k<length (published (fst (run_loop config loop_init inputs))).
      float_entry (published (fst (run_loop config loop_init inputs)) ! k) ''timestamp'' =
        Inr (t_now (inputs ! k)) \<and>
      float_entry (published (fst (run_loop config loop_init inputs)) ! k) ''target_time'' =
        Inr (fadd (t_now (inputs ! k)) (cycle_duration config k)) \<and>
      (\<exists>lead. lead_time (published (fst (run_loop config loop_init inputs)) ! k) = Inr lead \<and>
         \<bar>lead - cycle_duration config k\<bar>
           \<le> \<bar>t_now (inputs ! k) + cycle_duration config k\<bar> / 2 ^ 53)) \<and>
   (teleop_frequency config \<noteq> 0 \<longrightarrow>
      snd (run_loop config loop_init inputs) = None \<and>
      length (published (fst (run_loop config loop_init inputs))) = length inputs)"
proof -
  let ?pub = "published (fst (run_loop config loop_init inputs))"
  have main: "float_entry (?pub ! k) ''timestamp'' = Inr (t_now (inputs ! k)) \<and>
      float_entry (?pub ! k) ''target_time'' = Inr (fadd (t_now (inputs ! k)) (cycle_duration config k)) \<and>
      (\<exists>lead. lead_time (?pub ! k) = Inr lead \<and>
         \<bar>lead - cycle_duration config k\<bar> \<le> \<bar>t_now (inputs ! k) + cycle_duration config k\<bar> / 2 ^ 53)"
    if "k < length ?pub" for k
  proof -
    let ?t = "t_now (inputs ! k)" and ?d = "cycle_duration config k"
    have e: "float_entry (?pub ! k) ''timestamp'' = Inr ?t"
      "float_entry (?pub ! k) ''target_time'' = Inr (fadd ?t ?d)"
      using run_loop_published [OF that] by simp_all
    have l: "lead_time (?pub ! k) = Inr (fadd ?t ?d - ?t)"
      using e by (rule lead_time_entries)
    have "\<bar>fadd ?t ?d - ?t - ?d\<bar> = \<bar>fl (?t + ?d) - (?t + ?d)\<bar>"
      by (simp add: fadd_def algebra_simps)
    also have "\<dots> \<le> \<bar>?t + ?d\<bar> / 2 ^ 53" by (rule fl_error)
    finally show ?thesis using e l by blast
  qed
  moreover have "teleop_frequency config \<noteq> 0 \<longrightarrow>
      snd (run_loop config loop_init inputs) = None \<and> length ?pub = length inputs"
    using run_loop_total [of config loop_init inputs] by (simp add: loop_init_def)
  ultimately show ?thesis by blast
qed

theorem run_loop_lead_times_rounded_witness:
  "teleop_frequency config20 \<noteq> 0 \<and>
   snd (run_loop config20 loop_init inputs3) = None \<and>
   length (published (fst (run_loop config20 loop_init inputs3))) = 3 \<and>
   float_entry (published (fst (run_loop config20 loop_init inputs3)) ! 0) ''timestamp'' = Inr 11 \<and>
   float_entry (published (fst (run_loop config20 loop_init inputs3)) ! 0) ''target_time'' = Inr 13 \<and>
   lead_time (published (fst (run_loop config20 loop_init inputs3)) ! 0) = Inr 2 \<and>
   float_entry (published (fst (run_loop config20 loop_init inputs3)) ! 1) ''timestamp'' = Inr 15 \<and>
   float_entry (published (fst (run_loop config20 loop_init inputs3)) ! 1) ''target_time'' =
     Inr (15 + 14073748835533 / 2 ^ 48) \<and>
   (\<exists>lead. lead_time (published (fst (run_loop config20 loop_init inputs3)) ! 1) = Inr lead \<and>
      \<bar>lead - 3602879701896397 / 2 ^ 56\<bar> \<le> \<bar>15 + 3602879701896397 / 2 ^ 56\<bar> / 2 ^ 53)"
proof -
  note t = run_loop_lead_times_rounded [where config = config20 and inputs = inputs3]
  have nz: "teleop_frequency config20 \<noteq> 0" by (simp add: config20_def)
  have len: "length (published (fst (run_loop config20 loop_init inputs3))) = 3"
    and ok: "snd (run_loop config20 loop_init inputs3) = None"
    using t nz by (simp_all add: inputs3_def)
  have d0: "cycle_duration config20 0 = 2"
    by (simp add: cycle_duration_def time_to_get_to_initial_pose_def)
  have d1: "cycle_duration config20 1 = 3602879701896397 / 2 ^ 56"
    by (simp add: cycle_duration_def config20_def fl_1_20)
  have i0: "t_now (inputs3 ! 0) = 11" and i1: "t_now (inputs3 ! 1) = 15"
    by (simp_all add: inputs3_def)
  have a0: "fadd 11 2 = 13" by (simp add: fadd_def fl_13)
  have a1: "fadd 15 (3602879701896397 / 2 ^ 56) = 15 + 14073748835533 / 2 ^ 48"
    unfolding fadd_def by (rule fl_15_05)
  have k0: "float_entry (published (fst (run_loop config20 loop_init inputs3)) ! 0) ''timestamp'' = Inr 11"
      "float_entry (published (fst (run_loop config20 loop_init inputs3)) ! 0) ''target_time'' = Inr 13"
    using t [THEN conjunct1, rule_format, of 0] len by (simp_all add: d0 i0 a0)
  have l0: "lead_time (published (fst (run_loop config20 loop_init inputs3)) ! 0) = Inr 2"
    using lead_time_entries [OF k0] by simp
  have k1: "float_entry (published (fst (run_loop config20 loop_init inputs3)) ! 1) ''timestamp'' = Inr 15"
      "float_entry (published (fst (run_loop config20 loop_init inputs3)) ! 1) ''target_time'' =
         Inr (15 + 14073748835533 / 2 ^ 48)"
    using t [THEN conjunct1, rule_format, of 1] len unfolding d1 i1 a1 by simp_all
  have b1: "\<exists>lead. lead_time (published (fst (run_loop config20 loop_init inputs3)) ! 1) = Inr lead \<and>
      \<bar>lead - 3602879701896397 / 2 ^ 56\<bar> \<le> \<bar>15 + 3602879701896397 / 2 ^ 56\<bar> / 2 ^ 53"
    using t [THEN conjunct1, rule_format, of 1] len unfolding d1 i1 by simp
  show ?thesis using nz ok len k0 l0 k1 b1 by blast
qed

end
